theory Spec2Isabelle
  imports Main
begin

section \<open>Course tracker: tables, guard and action handlers\<close>

text \<open>
  The development embeds \<^verbatim>\<open>db/tables.ts\<close> (the four table definitions) and
  \<^verbatim>\<open>src/actions/index.ts\<close> (the guard \<^verbatim>\<open>requireUser\<close> and the eight action
  handlers of \<^verbatim>\<open>server\<close>).

  Conventions of the embedding.
  \<^item> A table is the list of its rows in storage order; a handler takes the store and
    returns its outcome together with the store it leaves behind.
  \<^item> \<^verbatim>\<open>throw new ActionError({code: ...})\<close> is the outcome \<open>Inl code\<close>.
  \<^item> An optional input field is an \<open>option\<close>: \<open>None\<close> is \<^verbatim>\<open>undefined\<close>.
    An optional column is an \<open>option\<close>: \<open>None\<close> is SQL \<^verbatim>\<open>NULL\<close>.
  \<^item> A JavaScript date is its number of milliseconds, an \<open>int\<close>. The handlers read
    the clock with \<^verbatim>\<open>new Date()\<close>; the \<open>k\<close>-th reading of one invocation is
    \<open>new_Date env k\<close>. The column default \<^verbatim>\<open>NOW\<close> is evaluated by the database: \<open>NOW env\<close>.
  \<^item> Numbers accepted by \<^verbatim>\<open>z.number().int()\<close> are \<open>int\<close>.
  \<^item> The query builder is the one \<^verbatim>\<open>astro:db\<close> re-exports (Drizzle ORM):
    \<^verbatim>\<open>select().from(T).where(p).limit(1)\<close> yields the first row that satisfies \<open>p\<close>;
    \<^verbatim>\<open>insert(T).values(v).returning()\<close> appends one row, a key of \<open>v\<close> that is
    missing or \<^verbatim>\<open>undefined\<close> taking the column's default (\<^verbatim>\<open>NULL\<close> for an optional column);
    \<^verbatim>\<open>update(T).set(v).where(p).returning()\<close> assigns, in every row that satisfies \<open>p\<close>,
    the keys of \<open>v\<close> whose value is not \<^verbatim>\<open>undefined\<close> (a key that is missing or
    \<^verbatim>\<open>undefined\<close> is skipped: the column keeps its value; \<^verbatim>\<open>null\<close> stores \<^verbatim>\<open>NULL\<close>);
    \<^verbatim>\<open>delete(T).where(p).returning()\<close> removes every row that satisfies \<open>p\<close>.
    \<^verbatim>\<open>const [x] = rows\<close> is the first element, or \<^verbatim>\<open>undefined\<close>.
  \<^item> The storage engine enforces the references that \<^verbatim>\<open>db/tables.ts\<close> declares
    (\<^verbatim>\<open>CourseItems.courseId\<close> and \<^verbatim>\<open>CourseProgress.courseId\<close> to \<^verbatim>\<open>Courses.id\<close>;
    \<^verbatim>\<open>CourseProgress.lastVisitedItemId\<close> and \<^verbatim>\<open>CourseItemProgress.itemId\<close> to
    \<^verbatim>\<open>CourseItems.id\<close>). A statement that would store a reference to no row, or remove a
    row that another row refers to, fails as a whole: it writes nothing and the driver
    throws \<^verbatim>\<open>SQLITE_CONSTRAINT_FOREIGNKEY\<close>, which no handler catches. Two statements
    of the handlers can fail so: the write of \<^verbatim>\<open>upsertCourseProgress\<close> (through
    \<^verbatim>\<open>lastVisitedItemId\<close>) and the \<^verbatim>\<open>DELETE\<close> of \<^verbatim>\<open>deleteCourseItem\<close>. The other
    writes store only the key of a row the handler has just read (\<open>owned_course_references\<close>,
    \<open>found_item_references\<close> below). Other storage failures are not modelled.
\<close>

subsection \<open>Enumerations of the schema\<close>

datatype level = Beginner | Intermediate | Advanced

datatype course_status = Planned | In_progress | Completed | Dropped

datatype item_type = Lesson | Module | Assignment | Quiz | Exam | Other

datatype progress_status = P_not_started | P_in_progress | P_completed | P_dropped

datatype item_progress_status = I_not_started | I_in_progress | I_completed | I_skipped

text \<open>Values of a \<^verbatim>\<open>column.json\<close> column and of a \<^verbatim>\<open>z.any()\<close> input. \<open>JNull\<close> is
  JavaScript's \<^verbatim>\<open>null\<close>. Numbers are limited to integers; no handler inspects them.\<close>

datatype json =
    JNull
  | JBool bool
  | JNum int
  | JStr string
  | JArr "json list"
  | JObj "(string \<times> json) list"

type_synonym date = int

subsection \<open>Rows of the four tables\<close>

record course =
  c_id :: int
  c_ownerId :: string
  c_title :: string
  c_description :: "string option"
  c_provider :: "string option"
  c_platform :: "string option"
  c_url :: "string option"
  c_level :: level
  c_tags :: "string option"
  c_status :: course_status
  c_createdAt :: date
  c_updatedAt :: date

record course_item =
  ci_id :: int
  ci_courseId :: int
  ci_type :: item_type
  ci_title :: string
  ci_description :: "string option"
  ci_position :: int
  ci_dueDate :: "date option"
  ci_estimatedMinutes :: "int option"
  ci_isRequired :: bool
  ci_createdAt :: date

record course_progress =
  cp_id :: int
  cp_courseId :: int
  cp_userId :: string
  cp_status :: progress_status
  cp_startedAt :: "date option"
  cp_completedAt :: "date option"
  cp_completionPercent :: int
  cp_totalItems :: int
  cp_completedItems :: int
  cp_lastVisitedItemId :: "int option"
  cp_meta :: "json option"
  cp_createdAt :: date
  cp_updatedAt :: date

record course_item_progress =
  cip_id :: int
  cip_itemId :: int
  cip_userId :: string
  cip_status :: item_progress_status
  cip_startedAt :: "date option"
  cip_completedAt :: "date option"
  cip_notes :: "string option"
  cip_createdAt :: date

subsection \<open>The store\<close>

datatype table_name = T_Courses | T_CourseItems | T_CourseProgress | T_CourseItemProgress

text \<open>A mutating statement sent to the database. The store keeps the statements it
  has executed in \<open>journal\<close>, oldest first; the journal is not a table. A statement
  that fails on a reference has changed nothing and is not entered.\<close>

datatype stmt = INSERT table_name | UPDATE table_name | DELETE table_name

record store =
  Courses :: "course list"
  CourseItems :: "course_item list"
  CourseProgress :: "course_progress list"
  CourseItemProgress :: "course_item_progress list"
  journal :: "stmt list"

definition tables ::
  "store \<Rightarrow> course list \<times> course_item list \<times> course_progress list \<times> course_item_progress list"
where
  "tables s = (Courses s, CourseItems s, CourseProgress s, CourseItemProgress s)"

definition empty_store :: store where
  "empty_store =
     \<lparr>Courses = [], CourseItems = [], CourseProgress = [], CourseItemProgress = [], journal = []\<rparr>"

record env =
  new_Date :: "nat \<Rightarrow> date"
  NOW :: date

subsection \<open>Query builder\<close>

text \<open>\<^verbatim>\<open>const [x] = rows\<close>.\<close>

definition first :: "'a list \<Rightarrow> 'a option" where
  "first rows = (case rows of [] \<Rightarrow> None | r # _ \<Rightarrow> Some r)"

text \<open>\<^verbatim>\<open>select().from(T).where(p)\<close>, and the same with \<^verbatim>\<open>.limit(1)\<close>.\<close>

definition db_select :: "('r \<Rightarrow> bool) \<Rightarrow> 'r list \<Rightarrow> 'r list" where
  "db_select p rows = filter p rows"

definition db_select_limit1 :: "('r \<Rightarrow> bool) \<Rightarrow> 'r list \<Rightarrow> 'r list" where
  "db_select_limit1 p rows = take 1 (filter p rows)"

text \<open>The key of a new row of a table with an integer primary key: one more than
  the largest key in the table, 1 in an empty table.\<close>

definition next_id :: "int list \<Rightarrow> int" where
  "next_id ids = fold max ids 0 + 1"

text \<open>\<^verbatim>\<open>insert(T).values(v).returning()\<close>: \<open>mk\<close> builds the row from the new key;
  the result is the table and the returned rows.\<close>

definition db_insert :: "('r \<Rightarrow> int) \<Rightarrow> (int \<Rightarrow> 'r) \<Rightarrow> 'r list \<Rightarrow> 'r list \<times> 'r list" where
  "db_insert key mk rows = (let r = mk (next_id (map key rows)) in (rows @ [r], [r]))"

text \<open>\<^verbatim>\<open>update(T).set(v).where(p).returning()\<close>: \<open>f\<close> assigns the keys of \<open>v\<close>.\<close>

definition db_update :: "('r \<Rightarrow> bool) \<Rightarrow> ('r \<Rightarrow> 'r) \<Rightarrow> 'r list \<Rightarrow> 'r list \<times> 'r list" where
  "db_update p f rows = (map (\<lambda>r. if p r then f r else r) rows, map f (filter p rows))"

text \<open>\<^verbatim>\<open>delete(T).where(p).returning()\<close>.\<close>

definition db_delete :: "('r \<Rightarrow> bool) \<Rightarrow> 'r list \<Rightarrow> 'r list \<times> 'r list" where
  "db_delete p rows = (filter (\<lambda>r. \<not> p r) rows, filter p rows)"

text \<open>A JavaScript value that may be \<^verbatim>\<open>undefined\<close> or \<^verbatim>\<open>null\<close>, for the keys of the
  objects given to \<^verbatim>\<open>set\<close> and \<^verbatim>\<open>values\<close>.\<close>

datatype 'a js = Undefined | Null | Val 'a

text \<open>\<^verbatim>\<open>a ?? b\<close>.\<close>

definition nullish_or :: "'a js \<Rightarrow> 'a js \<Rightarrow> 'a js" where
  "nullish_or a b = (case a of Val x \<Rightarrow> Val x | _ \<Rightarrow> b)"

text \<open>An optional input field as a JavaScript value; a \<^verbatim>\<open>z.any()\<close> field may also
  be \<^verbatim>\<open>null\<close>.\<close>

definition of_input :: "'a option \<Rightarrow> 'a js" where
  "of_input v = (case v of None \<Rightarrow> Undefined | Some x \<Rightarrow> Val x)"

definition of_json :: "json option \<Rightarrow> json js" where
  "of_json v = (case v of None \<Rightarrow> Undefined | Some JNull \<Rightarrow> Null | Some j \<Rightarrow> Val j)"

text \<open>\<^verbatim>\<open>existing?.col\<close> for an optional column: \<^verbatim>\<open>undefined\<close> without a row,
  \<^verbatim>\<open>null\<close> for \<^verbatim>\<open>NULL\<close>.\<close>

definition of_column :: "'a option \<Rightarrow> 'a js" where
  "of_column v = (case v of None \<Rightarrow> Null | Some x \<Rightarrow> Val x)"

definition opt_chain :: "'r option \<Rightarrow> ('r \<Rightarrow> 'a js) \<Rightarrow> 'a js" where
  "opt_chain existing col = (case existing of None \<Rightarrow> Undefined | Some r \<Rightarrow> col r)"

text \<open>One key of the object given to \<^verbatim>\<open>set\<close>, for an optional column: a key that is
  missing or \<^verbatim>\<open>undefined\<close> leaves the column as it is. The same key given to
  \<^verbatim>\<open>values\<close>: a missing or \<^verbatim>\<open>undefined\<close> key stores \<^verbatim>\<open>NULL\<close>.\<close>

definition assign :: "'a js \<Rightarrow> 'a option \<Rightarrow> 'a option" where
  "assign v old = (case v of Undefined \<Rightarrow> old | Null \<Rightarrow> None | Val x \<Rightarrow> Some x)"

definition stored :: "'a js \<Rightarrow> 'a option" where
  "stored v = (case v of Undefined \<Rightarrow> None | Null \<Rightarrow> None | Val x \<Rightarrow> Some x)"

text \<open>One key of the object given to \<^verbatim>\<open>set\<close>, for a column that is not optional.\<close>

definition assign_req :: "'a option \<Rightarrow> 'a \<Rightarrow> 'a" where
  "assign_req v old = (case v of None \<Rightarrow> old | Some x \<Rightarrow> x)"

subsection \<open>Errors, results, the guard\<close>

text \<open>What an action throws: an \<^verbatim>\<open>ActionError\<close> with code \<open>UNAUTHORIZED\<close> or
  \<open>NOT_FOUND\<close>, or the driver's error for a statement that a reference rejects.\<close>

datatype error = UNAUTHORIZED | NOT_FOUND | SQLITE_CONSTRAINT_FOREIGNKEY

datatype result =
    R_course "course option"
  | R_courses "course list"
  | R_course_items "course" "course_item list"
  | R_item "course_item option"
  | R_progress "course_progress option"
  | R_item_progress "course_item_progress option"

type_synonym outcome = "error + result"

record user =
  u_id :: string

record app_locals =
  user :: "user option"

record action_context =
  locals :: "app_locals option"

text \<open>\<^verbatim>\<open>context.locals?.user\<close>.\<close>

definition locals_user :: "action_context \<Rightarrow> user option" where
  "locals_user ctx = (case locals ctx of None \<Rightarrow> None | Some l \<Rightarrow> user l)"

definition requireUser :: "action_context \<Rightarrow> error + user" where
  "requireUser ctx =
     (case locals_user ctx of
        None \<Rightarrow> Inl UNAUTHORIZED
      | Some u \<Rightarrow> Inr u)"

subsection \<open>References between the tables\<close>

text \<open>\<^verbatim>\<open>references: () => Courses.columns.id\<close>: the value is the key of a course.\<close>

definition references_course :: "int \<Rightarrow> store \<Rightarrow> bool" where
  "references_course cid s = (cid \<in> set (map c_id (Courses s)))"

text \<open>\<^verbatim>\<open>references: () => CourseItems.columns.id\<close>: the value is \<^verbatim>\<open>NULL\<close> (for the
  optional \<^verbatim>\<open>lastVisitedItemId\<close>) or the key of an item.\<close>

definition references_item :: "int option \<Rightarrow> store \<Rightarrow> bool" where
  "references_item v s =
     (case v of None \<Rightarrow> True | Some i \<Rightarrow> i \<in> set (map ci_id (CourseItems s)))"

text \<open>The two references of a row of \<^verbatim>\<open>CourseProgress\<close>.\<close>

definition CourseProgress_references :: "course_progress \<Rightarrow> store \<Rightarrow> bool" where
  "CourseProgress_references r s =
     (references_course (cp_courseId r) s \<and> references_item (cp_lastVisitedItemId r) s)"

text \<open>Some row of \<^verbatim>\<open>CourseProgress\<close> or \<^verbatim>\<open>CourseItemProgress\<close> refers to the item.\<close>

definition item_referenced :: "int \<Rightarrow> store \<Rightarrow> bool" where
  "item_referenced iid s =
     (list_ex (\<lambda>p. cp_lastVisitedItemId p = Some iid) (CourseProgress s) \<or>
      list_ex (\<lambda>p. cip_itemId p = iid) (CourseItemProgress s))"

subsection \<open>createCourse\<close>

record createCourse_input =
  cc_title :: string
  cc_description :: "string option"
  cc_provider :: "string option"
  cc_platform :: "string option"
  cc_url :: "string option"
  cc_level :: "level option"
  cc_tags :: "string option"
  cc_status :: "course_status option"

definition createCourse :: "createCourse_input \<Rightarrow> action_context \<Rightarrow> env \<Rightarrow> store \<Rightarrow> outcome \<times> store" where
  "createCourse input ctx e s =
     (case requireUser ctx of
        Inl err \<Rightarrow> (Inl err, s)
      | Inr usr \<Rightarrow>
          let (rows, ret) =
                db_insert c_id
                  (\<lambda>k. \<lparr>c_id = k,
                        c_ownerId = u_id usr,
                        c_title = cc_title input,
                        c_description = stored (of_input (cc_description input)),
                        c_provider = stored (of_input (cc_provider input)),
                        c_platform = stored (of_input (cc_platform input)),
                        c_url = stored (of_input (cc_url input)),
                        c_level = (case cc_level input of None \<Rightarrow> Beginner | Some l \<Rightarrow> l),
                        c_tags = stored (of_input (cc_tags input)),
                        c_status = (case cc_status input of None \<Rightarrow> Planned | Some st \<Rightarrow> st),
                        c_createdAt = new_Date e 0,
                        c_updatedAt = new_Date e 1\<rparr>)
                  (Courses s)
          in (Inr (R_course (first ret)),
              s\<lparr>Courses := rows, journal := journal s @ [INSERT T_Courses]\<rparr>))"

subsection \<open>updateCourse\<close>

record updateCourse_input =
  uc_id :: int
  uc_title :: "string option"
  uc_description :: "string option"
  uc_provider :: "string option"
  uc_platform :: "string option"
  uc_url :: "string option"
  uc_level :: "level option"
  uc_tags :: "string option"
  uc_status :: "course_status option"

text \<open>The keys of \<^verbatim>\<open>updateData\<close>: the loop copies from \<^verbatim>\<open>rest\<close> (the input without
  \<^verbatim>\<open>id\<close>) every entry whose value is not \<^verbatim>\<open>undefined\<close>.\<close>

definition updateData_keys :: "updateCourse_input \<Rightarrow> string list" where
  "updateData_keys input =
     (if uc_title input \<noteq> None then [''title''] else []) @
     (if uc_description input \<noteq> None then [''description''] else []) @
     (if uc_provider input \<noteq> None then [''provider''] else []) @
     (if uc_platform input \<noteq> None then [''platform''] else []) @
     (if uc_url input \<noteq> None then [''url''] else []) @
     (if uc_level input \<noteq> None then [''level''] else []) @
     (if uc_tags input \<noteq> None then [''tags''] else []) @
     (if uc_status input \<noteq> None then [''status''] else [])"

text \<open>\<^verbatim>\<open>set({...updateData, updatedAt: new Date()})\<close> on one row.\<close>

definition Courses_set :: "updateCourse_input \<Rightarrow> date \<Rightarrow> course \<Rightarrow> course" where
  "Courses_set input now r =
     r\<lparr>c_title := assign_req (uc_title input) (c_title r),
       c_description := assign (of_input (uc_description input)) (c_description r),
       c_provider := assign (of_input (uc_provider input)) (c_provider r),
       c_platform := assign (of_input (uc_platform input)) (c_platform r),
       c_url := assign (of_input (uc_url input)) (c_url r),
       c_level := assign_req (uc_level input) (c_level r),
       c_tags := assign (of_input (uc_tags input)) (c_tags r),
       c_status := assign_req (uc_status input) (c_status r),
       c_updatedAt := now\<rparr>"

text \<open>The ownership lookup shared by the handlers:
  \<^verbatim>\<open>select().from(Courses).where(and(eq(Courses.id, id), eq(Courses.ownerId, user.id))).limit(1)\<close>.\<close>

definition owned_course :: "int \<Rightarrow> user \<Rightarrow> store \<Rightarrow> course option" where
  "owned_course cid usr s =
     first (db_select_limit1 (\<lambda>c. c_id c = cid \<and> c_ownerId c = u_id usr) (Courses s))"

definition updateCourse :: "updateCourse_input \<Rightarrow> action_context \<Rightarrow> env \<Rightarrow> store \<Rightarrow> outcome \<times> store" where
  "updateCourse input ctx e s =
     (case requireUser ctx of
        Inl err \<Rightarrow> (Inl err, s)
      | Inr usr \<Rightarrow>
          (case owned_course (uc_id input) usr s of
             None \<Rightarrow> (Inl NOT_FOUND, s)
           | Some existing \<Rightarrow>
               if length (updateData_keys input) = 0 then (Inr (R_course (Some existing)), s)
               else
                 let (rows, ret) =
                       db_update (\<lambda>c. c_id c = uc_id input \<and> c_ownerId c = u_id usr)
                         (Courses_set input (new_Date e 0)) (Courses s)
                 in (Inr (R_course (first ret)),
                     s\<lparr>Courses := rows, journal := journal s @ [UPDATE T_Courses]\<rparr>)))"

subsection \<open>listMyCourses\<close>

record listMyCourses_input =
  lm_status :: "course_status option"

definition listMyCourses ::
  "listMyCourses_input option \<Rightarrow> action_context \<Rightarrow> env \<Rightarrow> store \<Rightarrow> outcome \<times> store"
where
  "listMyCourses input ctx e s =
     (case requireUser ctx of
        Inl err \<Rightarrow> (Inl err, s)
      | Inr usr \<Rightarrow>
          let courses = db_select (\<lambda>c. c_ownerId c = u_id usr) (Courses s);
              filtered =
                (case (case input of None \<Rightarrow> None | Some i \<Rightarrow> lm_status i) of
                   Some st \<Rightarrow> filter (\<lambda>course. c_status course = st) courses
                 | None \<Rightarrow> courses)
          in (Inr (R_courses filtered), s))"

subsection \<open>getCourseWithItems\<close>

record getCourseWithItems_input =
  gc_id :: int

definition getCourseWithItems ::
  "getCourseWithItems_input \<Rightarrow> action_context \<Rightarrow> env \<Rightarrow> store \<Rightarrow> outcome \<times> store"
where
  "getCourseWithItems input ctx e s =
     (case requireUser ctx of
        Inl err \<Rightarrow> (Inl err, s)
      | Inr usr \<Rightarrow>
          (case owned_course (gc_id input) usr s of
             None \<Rightarrow> (Inl NOT_FOUND, s)
           | Some course \<Rightarrow>
               let items = db_select (\<lambda>i. ci_courseId i = gc_id input) (CourseItems s)
               in (Inr (R_course_items course items), s)))"

subsection \<open>saveCourseItem\<close>

record saveCourseItem_input =
  si_id :: "int option"
  si_courseId :: int
  si_type :: "item_type option"
  si_title :: string
  si_description :: "string option"
  si_position :: "int option"
  si_dueDate :: "date option"
  si_estimatedMinutes :: "int option"
  si_isRequired :: "bool option"

text \<open>The object \<^verbatim>\<open>baseValues\<close> of \<^verbatim>\<open>saveCourseItem\<close>.\<close>

record item_values =
  iv_courseId :: int
  iv_type :: item_type
  iv_title :: string
  iv_description :: "string js"
  iv_position :: int
  iv_dueDate :: "date js"
  iv_estimatedMinutes :: "int js"
  iv_isRequired :: bool
  iv_createdAt :: date

definition saveCourseItem_baseValues :: "saveCourseItem_input \<Rightarrow> env \<Rightarrow> item_values" where
  "saveCourseItem_baseValues input e =
     \<lparr>iv_courseId = si_courseId input,
      iv_type = (case si_type input of None \<Rightarrow> Lesson | Some t \<Rightarrow> t),
      iv_title = si_title input,
      iv_description = of_input (si_description input),
      iv_position = (case si_position input of None \<Rightarrow> 0 | Some p \<Rightarrow> p),
      iv_dueDate = of_input (si_dueDate input),
      iv_estimatedMinutes = of_input (si_estimatedMinutes input),
      iv_isRequired = (case si_isRequired input of None \<Rightarrow> True | Some b \<Rightarrow> b),
      iv_createdAt = new_Date e 0\<rparr>"

definition CourseItems_set :: "item_values \<Rightarrow> course_item \<Rightarrow> course_item" where
  "CourseItems_set v r =
     r\<lparr>ci_courseId := iv_courseId v,
       ci_type := iv_type v,
       ci_title := iv_title v,
       ci_description := assign (iv_description v) (ci_description r),
       ci_position := iv_position v,
       ci_dueDate := assign (iv_dueDate v) (ci_dueDate r),
       ci_estimatedMinutes := assign (iv_estimatedMinutes v) (ci_estimatedMinutes r),
       ci_isRequired := iv_isRequired v,
       ci_createdAt := iv_createdAt v\<rparr>"

definition CourseItems_values :: "item_values \<Rightarrow> int \<Rightarrow> course_item" where
  "CourseItems_values v k =
     \<lparr>ci_id = k,
      ci_courseId = iv_courseId v,
      ci_type = iv_type v,
      ci_title = iv_title v,
      ci_description = stored (iv_description v),
      ci_position = iv_position v,
      ci_dueDate = stored (iv_dueDate v),
      ci_estimatedMinutes = stored (iv_estimatedMinutes v),
      ci_isRequired = iv_isRequired v,
      ci_createdAt = iv_createdAt v\<rparr>"

text \<open>\<^verbatim>\<open>if (input.id)\<close>: a number is truthy unless it is 0.\<close>

definition truthy_id :: "int option \<Rightarrow> int option" where
  "truthy_id v = (case v of None \<Rightarrow> None | Some i \<Rightarrow> if i = 0 then None else Some i)"

definition saveCourseItem ::
  "saveCourseItem_input \<Rightarrow> action_context \<Rightarrow> env \<Rightarrow> store \<Rightarrow> outcome \<times> store"
where
  "saveCourseItem input ctx e s =
     (case requireUser ctx of
        Inl err \<Rightarrow> (Inl err, s)
      | Inr usr \<Rightarrow>
          (case owned_course (si_courseId input) usr s of
             None \<Rightarrow> (Inl NOT_FOUND, s)
           | Some course \<Rightarrow>
               let baseValues = saveCourseItem_baseValues input e in
               (case truthy_id (si_id input) of
                  Some iid \<Rightarrow>
                    (case first (db_select_limit1 (\<lambda>i. ci_id i = iid) (CourseItems s)) of
                       None \<Rightarrow> (Inl NOT_FOUND, s)
                     | Some existing \<Rightarrow>
                         if ci_courseId existing \<noteq> si_courseId input then (Inl NOT_FOUND, s)
                         else
                           let (rows, ret) =
                                 db_update (\<lambda>i. ci_id i = iid) (CourseItems_set baseValues)
                                   (CourseItems s)
                           in (Inr (R_item (first ret)),
                               s\<lparr>CourseItems := rows,
                                 journal := journal s @ [UPDATE T_CourseItems]\<rparr>))
                | None \<Rightarrow>
                    let (rows, ret) =
                          db_insert ci_id (CourseItems_values baseValues) (CourseItems s)
                    in (Inr (R_item (first ret)),
                        s\<lparr>CourseItems := rows,
                          journal := journal s @ [INSERT T_CourseItems]\<rparr>))))"

subsection \<open>deleteCourseItem\<close>

record deleteCourseItem_input =
  di_id :: int
  di_courseId :: int

definition deleteCourseItem ::
  "deleteCourseItem_input \<Rightarrow> action_context \<Rightarrow> env \<Rightarrow> store \<Rightarrow> outcome \<times> store"
where
  "deleteCourseItem input ctx e s =
     (case requireUser ctx of
        Inl err \<Rightarrow> (Inl err, s)
      | Inr usr \<Rightarrow>
          (case owned_course (di_courseId input) usr s of
             None \<Rightarrow> (Inl NOT_FOUND, s)
           | Some course \<Rightarrow>
               let (rows, ret) =
                     db_delete (\<lambda>i. ci_id i = di_id input \<and> ci_courseId i = di_courseId input)
                       (CourseItems s);
                   s' = s\<lparr>CourseItems := rows, journal := journal s @ [DELETE T_CourseItems]\<rparr>
               in if list_ex (\<lambda>d. item_referenced (ci_id d) s) ret
                  then (Inl SQLITE_CONSTRAINT_FOREIGNKEY, s)
                  else (case first ret of
                          None \<Rightarrow> (Inl NOT_FOUND, s')
                        | Some deleted \<Rightarrow> (Inr (R_item (Some deleted)), s'))))"

subsection \<open>upsertCourseProgress\<close>

record upsertCourseProgress_input =
  up_courseId :: int
  up_status :: "progress_status option"
  up_completionPercent :: "int option"
  up_totalItems :: "int option"
  up_completedItems :: "int option"
  up_lastVisitedItemId :: "int option"
  up_meta :: "json option"

text \<open>The object \<^verbatim>\<open>baseValues\<close> of \<^verbatim>\<open>upsertCourseProgress\<close>.\<close>

record progress_values =
  pv_courseId :: int
  pv_userId :: string
  pv_status :: progress_status
  pv_completionPercent :: int
  pv_totalItems :: int
  pv_completedItems :: int
  pv_lastVisitedItemId :: "int js"
  pv_meta :: "json js"
  pv_startedAt :: date
  pv_updatedAt :: date

text \<open>\<^verbatim>\<open>input.f ?? existing?.f ?? d\<close> for a column that is not optional.\<close>

definition input_or_existing :: "'a option \<Rightarrow> 'r option \<Rightarrow> ('r \<Rightarrow> 'a) \<Rightarrow> 'a \<Rightarrow> 'a" where
  "input_or_existing v existing col d =
     (case v of
        Some x \<Rightarrow> x
      | None \<Rightarrow> (case existing of Some r \<Rightarrow> col r | None \<Rightarrow> d))"

text \<open>The value of a \<^verbatim>\<open>column.json\<close> column as the handler reads it.\<close>

definition of_json_column :: "json option \<Rightarrow> json js" where
  "of_json_column v = (case v of None \<Rightarrow> Null | Some JNull \<Rightarrow> Null | Some j \<Rightarrow> Val j)"

definition upsertCourseProgress_baseValues ::
  "upsertCourseProgress_input \<Rightarrow> user \<Rightarrow> course_progress option \<Rightarrow> env \<Rightarrow> progress_values"
where
  "upsertCourseProgress_baseValues input usr existing e =
     (let startedAt = opt_chain existing (\<lambda>r. of_column (cp_startedAt r)) in
      \<lparr>pv_courseId = up_courseId input,
       pv_userId = u_id usr,
       pv_status = input_or_existing (up_status input) existing cp_status P_not_started,
       pv_completionPercent =
         input_or_existing (up_completionPercent input) existing cp_completionPercent 0,
       pv_totalItems = input_or_existing (up_totalItems input) existing cp_totalItems 0,
       pv_completedItems =
         input_or_existing (up_completedItems input) existing cp_completedItems 0,
       pv_lastVisitedItemId =
         nullish_or (of_input (up_lastVisitedItemId input))
           (opt_chain existing (\<lambda>r. of_column (cp_lastVisitedItemId r))),
       pv_meta =
         nullish_or (of_json (up_meta input))
           (opt_chain existing (\<lambda>r. of_json_column (cp_meta r))),
       pv_startedAt = (case startedAt of Val d \<Rightarrow> d | _ \<Rightarrow> new_Date e 0),
       pv_updatedAt = (case startedAt of Val d \<Rightarrow> new_Date e 0 | _ \<Rightarrow> new_Date e 1)\<rparr>)"

definition CourseProgress_set :: "progress_values \<Rightarrow> course_progress \<Rightarrow> course_progress" where
  "CourseProgress_set v r =
     r\<lparr>cp_courseId := pv_courseId v,
       cp_userId := pv_userId v,
       cp_status := pv_status v,
       cp_completionPercent := pv_completionPercent v,
       cp_totalItems := pv_totalItems v,
       cp_completedItems := pv_completedItems v,
       cp_lastVisitedItemId := assign (pv_lastVisitedItemId v) (cp_lastVisitedItemId r),
       cp_meta := assign (pv_meta v) (cp_meta r),
       cp_startedAt := Some (pv_startedAt v),
       cp_updatedAt := pv_updatedAt v\<rparr>"

definition CourseProgress_values :: "progress_values \<Rightarrow> date \<Rightarrow> int \<Rightarrow> course_progress" where
  "CourseProgress_values v now k =
     \<lparr>cp_id = k,
      cp_courseId = pv_courseId v,
      cp_userId = pv_userId v,
      cp_status = pv_status v,
      cp_startedAt = Some (pv_startedAt v),
      cp_completedAt = None,
      cp_completionPercent = pv_completionPercent v,
      cp_totalItems = pv_totalItems v,
      cp_completedItems = pv_completedItems v,
      cp_lastVisitedItemId = stored (pv_lastVisitedItemId v),
      cp_meta = stored (pv_meta v),
      cp_createdAt = now,
      cp_updatedAt = pv_updatedAt v\<rparr>"

text \<open>The lookup of the row to update:
  \<^verbatim>\<open>select().from(CourseProgress).where(and(eq(CourseProgress.courseId, input.courseId),
  eq(CourseProgress.userId, user.id))).limit(1)\<close>.\<close>

definition existing_progress :: "int \<Rightarrow> user \<Rightarrow> store \<Rightarrow> course_progress option" where
  "existing_progress cid usr s =
     first (db_select_limit1 (\<lambda>p. cp_courseId p = cid \<and> cp_userId p = u_id usr)
       (CourseProgress s))"

definition upsertCourseProgress ::
  "upsertCourseProgress_input \<Rightarrow> action_context \<Rightarrow> env \<Rightarrow> store \<Rightarrow> outcome \<times> store"
where
  "upsertCourseProgress input ctx e s =
     (case requireUser ctx of
        Inl err \<Rightarrow> (Inl err, s)
      | Inr usr \<Rightarrow>
          (case owned_course (up_courseId input) usr s of
             None \<Rightarrow> (Inl NOT_FOUND, s)
           | Some course \<Rightarrow>
               let existing = existing_progress (up_courseId input) usr s;
                   baseValues = upsertCourseProgress_baseValues input usr existing e
               in (case existing of
                     Some ex \<Rightarrow>
                       let (rows, ret) =
                             db_update (\<lambda>p. cp_id p = cp_id ex) (CourseProgress_set baseValues)
                               (CourseProgress s)
                       in if list_all (\<lambda>r. CourseProgress_references r s) ret
                          then (Inr (R_progress (first ret)),
                                s\<lparr>CourseProgress := rows,
                                  journal := journal s @ [UPDATE T_CourseProgress]\<rparr>)
                          else (Inl SQLITE_CONSTRAINT_FOREIGNKEY, s)
                   | None \<Rightarrow>
                       let (rows, ret) =
                             db_insert cp_id (CourseProgress_values baseValues (NOW e))
                               (CourseProgress s)
                       in if list_all (\<lambda>r. CourseProgress_references r s) ret
                          then (Inr (R_progress (first ret)),
                                s\<lparr>CourseProgress := rows,
                                  journal := journal s @ [INSERT T_CourseProgress]\<rparr>)
                          else (Inl SQLITE_CONSTRAINT_FOREIGNKEY, s))))"

subsection \<open>updateCourseItemProgress\<close>

record updateCourseItemProgress_input =
  ip_itemId :: int
  ip_status :: "item_progress_status option"
  ip_startedAt :: "date option"
  ip_completedAt :: "date option"
  ip_notes :: "string option"

text \<open>The object \<^verbatim>\<open>baseValues\<close> of \<^verbatim>\<open>updateCourseItemProgress\<close>.\<close>

record item_progress_values =
  ipv_itemId :: int
  ipv_userId :: string
  ipv_status :: item_progress_status
  ipv_startedAt :: "date js"
  ipv_completedAt :: "date js"
  ipv_notes :: "string js"

definition updateCourseItemProgress_baseValues ::
  "updateCourseItemProgress_input \<Rightarrow> user \<Rightarrow> course_item_progress option \<Rightarrow> item_progress_values"
where
  "updateCourseItemProgress_baseValues input usr existing =
     \<lparr>ipv_itemId = ip_itemId input,
      ipv_userId = u_id usr,
      ipv_status = input_or_existing (ip_status input) existing cip_status I_not_started,
      ipv_startedAt =
        nullish_or (of_input (ip_startedAt input))
          (opt_chain existing (\<lambda>r. of_column (cip_startedAt r))),
      ipv_completedAt =
        nullish_or (of_input (ip_completedAt input))
          (opt_chain existing (\<lambda>r. of_column (cip_completedAt r))),
      ipv_notes =
        nullish_or (of_input (ip_notes input))
          (opt_chain existing (\<lambda>r. of_column (cip_notes r)))\<rparr>"

definition CourseItemProgress_set ::
  "item_progress_values \<Rightarrow> course_item_progress \<Rightarrow> course_item_progress"
where
  "CourseItemProgress_set v r =
     r\<lparr>cip_itemId := ipv_itemId v,
       cip_userId := ipv_userId v,
       cip_status := ipv_status v,
       cip_startedAt := assign (ipv_startedAt v) (cip_startedAt r),
       cip_completedAt := assign (ipv_completedAt v) (cip_completedAt r),
       cip_notes := assign (ipv_notes v) (cip_notes r)\<rparr>"

definition CourseItemProgress_values ::
  "item_progress_values \<Rightarrow> date \<Rightarrow> int \<Rightarrow> course_item_progress"
where
  "CourseItemProgress_values v now k =
     \<lparr>cip_id = k,
      cip_itemId = ipv_itemId v,
      cip_userId = ipv_userId v,
      cip_status = ipv_status v,
      cip_startedAt = stored (ipv_startedAt v),
      cip_completedAt = stored (ipv_completedAt v),
      cip_notes = stored (ipv_notes v),
      cip_createdAt = now\<rparr>"

definition updateCourseItemProgress ::
  "updateCourseItemProgress_input \<Rightarrow> action_context \<Rightarrow> env \<Rightarrow> store \<Rightarrow> outcome \<times> store"
where
  "updateCourseItemProgress input ctx e s =
     (case requireUser ctx of
        Inl err \<Rightarrow> (Inl err, s)
      | Inr usr \<Rightarrow>
          (case first (db_select_limit1 (\<lambda>i. ci_id i = ip_itemId input) (CourseItems s)) of
             None \<Rightarrow> (Inl NOT_FOUND, s)
           | Some item \<Rightarrow>
               (case owned_course (ci_courseId item) usr s of
                  None \<Rightarrow> (Inl NOT_FOUND, s)
                | Some course \<Rightarrow>
                    let existing =
                          first (db_select_limit1
                            (\<lambda>p. cip_itemId p = ip_itemId input \<and> cip_userId p = u_id usr)
                            (CourseItemProgress s));
                        baseValues = updateCourseItemProgress_baseValues input usr existing
                    in (case existing of
                          Some ex \<Rightarrow>
                            let (rows, ret) =
                                  db_update (\<lambda>p. cip_id p = cip_id ex)
                                    (CourseItemProgress_set baseValues) (CourseItemProgress s)
                            in (Inr (R_item_progress (first ret)),
                                s\<lparr>CourseItemProgress := rows,
                                  journal := journal s @ [UPDATE T_CourseItemProgress]\<rparr>)
                        | None \<Rightarrow>
                            let (rows, ret) =
                                  db_insert cip_id (CourseItemProgress_values baseValues (NOW e))
                                    (CourseItemProgress s)
                            in (Inr (R_item_progress (first ret)),
                                s\<lparr>CourseItemProgress := rows,
                                  journal := journal s @ [INSERT T_CourseItemProgress]\<rparr>)))))"

subsection \<open>The action surface\<close>

text \<open>An invocation of one of the eight entries of \<^verbatim>\<open>server\<close> with its validated input.\<close>

datatype action =
    CreateCourse createCourse_input
  | UpdateCourse updateCourse_input
  | ListMyCourses "listMyCourses_input option"
  | GetCourseWithItems getCourseWithItems_input
  | SaveCourseItem saveCourseItem_input
  | DeleteCourseItem deleteCourseItem_input
  | UpsertCourseProgress upsertCourseProgress_input
  | UpdateCourseItemProgress updateCourseItemProgress_input

fun server :: "action \<Rightarrow> action_context \<Rightarrow> env \<Rightarrow> store \<Rightarrow> outcome \<times> store" where
  "server (CreateCourse input) = createCourse input"
| "server (UpdateCourse input) = updateCourse input"
| "server (ListMyCourses input) = listMyCourses input"
| "server (GetCourseWithItems input) = getCourseWithItems input"
| "server (SaveCourseItem input) = saveCourseItem input"
| "server (DeleteCourseItem input) = deleteCourseItem input"
| "server (UpsertCourseProgress input) = upsertCourseProgress input"
| "server (UpdateCourseItemProgress input) = updateCourseItemProgress input"

subsection \<open>Storage invariants\<close>

text \<open>The primary key of a table: no two rows share a key, and every key is at least 1
  (\<open>next_id\<close> never hands out a smaller one).\<close>

definition pk_ok :: "int list \<Rightarrow> bool" where
  "pk_ok ids = (distinct ids \<and> list_all (\<lambda>i. 1 \<le> i) ids)"

text \<open>The rows of \<^verbatim>\<open>CourseProgress\<close> for one course and one user.\<close>

definition progress_rows :: "int \<Rightarrow> string \<Rightarrow> store \<Rightarrow> course_progress list" where
  "progress_rows cid uid s =
     filter (\<lambda>p. cp_courseId p = cid \<and> cp_userId p = uid) (CourseProgress s)"

text \<open>Every stored reference names a row of the table it refers to.\<close>

definition refs_ok :: "store \<Rightarrow> bool" where
  "refs_ok s =
     (list_all (\<lambda>i. references_course (ci_courseId i) s) (CourseItems s) \<and>
      list_all (\<lambda>p. CourseProgress_references p s) (CourseProgress s) \<and>
      list_all (\<lambda>p. references_item (Some (cip_itemId p)) s) (CourseItemProgress s))"

text \<open>The four primary keys, and at most one progress row for each course and user,
  and for each item and user.\<close>

definition keys_ok :: "store \<Rightarrow> bool" where
  "keys_ok s =
     (pk_ok (map c_id (Courses s)) \<and>
      pk_ok (map ci_id (CourseItems s)) \<and>
      pk_ok (map cp_id (CourseProgress s)) \<and>
      pk_ok (map cip_id (CourseItemProgress s)) \<and>
      distinct (map (\<lambda>p. (cp_courseId p, cp_userId p)) (CourseProgress s)) \<and>
      distinct (map (\<lambda>p. (cip_itemId p, cip_userId p)) (CourseItemProgress s)))"

text \<open>What holds of every store the handlers have built from the empty one.\<close>

definition wf_store :: "store \<Rightarrow> bool" where
  "wf_store s = (keys_ok s \<and> refs_ok s)"

text \<open>A sequence of calls, one after the other, each with its context and clock.\<close>

definition run_all :: "(action \<times> action_context \<times> env) list \<Rightarrow> store \<Rightarrow> store" where
  "run_all calls s = fold (\<lambda>(a, ctx, e) s. snd (server a ctx e s)) calls s"

subsection \<open>Sample data\<close>

definition alice :: user where
  "alice = \<lparr>u_id = ''alice''\<rparr>"

definition bob :: user where
  "bob = \<lparr>u_id = ''bob''\<rparr>"

definition ctx_of :: "user \<Rightarrow> action_context" where
  "ctx_of u = \<lparr>locals = Some \<lparr>user = Some u\<rparr>\<rparr>"

definition ctx_anonymous :: action_context where
  "ctx_anonymous = \<lparr>locals = Some \<lparr>user = None\<rparr>\<rparr>"

definition env0 :: env where
  "env0 = \<lparr>new_Date = (\<lambda>k. 1000 + int k), NOW = 999\<rparr>"

definition env1 :: env where
  "env1 = \<lparr>new_Date = (\<lambda>k. 2000 + int k), NOW = 1999\<rparr>"

definition intro_to_go :: createCourse_input where
  "intro_to_go =
     \<lparr>cc_title = ''Intro to Go'', cc_description = None, cc_provider = None,
      cc_platform = None, cc_url = None, cc_level = None, cc_tags = None, cc_status = None\<rparr>"

definition course1 :: course where
  "course1 =
     \<lparr>c_id = 1, c_ownerId = ''alice'', c_title = ''Intro to Go'', c_description = Some ''Basics'',
      c_provider = None, c_platform = None, c_url = None, c_level = Beginner, c_tags = None,
      c_status = Planned, c_createdAt = 100, c_updatedAt = 100\<rparr>"

definition course2 :: course where
  "course2 =
     \<lparr>c_id = 2, c_ownerId = ''alice'', c_title = ''Physics'', c_description = None,
      c_provider = None, c_platform = None, c_url = None, c_level = Advanced, c_tags = None,
      c_status = In_progress, c_createdAt = 110, c_updatedAt = 120\<rparr>"

definition item1 :: course_item where
  "item1 =
     \<lparr>ci_id = 1, ci_courseId = 1, ci_type = Quiz, ci_title = ''Quiz 1'',
      ci_description = Some ''Pointers'', ci_position = 3, ci_dueDate = Some 500,
      ci_estimatedMinutes = Some 30, ci_isRequired = False, ci_createdAt = 130\<rparr>"

definition item2 :: course_item where
  "item2 =
     \<lparr>ci_id = 2, ci_courseId = 2, ci_type = Lesson, ci_title = ''Vectors'',
      ci_description = None, ci_position = 0, ci_dueDate = None,
      ci_estimatedMinutes = None, ci_isRequired = True, ci_createdAt = 140\<rparr>"

definition progress1 :: course_progress where
  "progress1 =
     \<lparr>cp_id = 1, cp_courseId = 1, cp_userId = ''alice'', cp_status = P_in_progress,
      cp_startedAt = None, cp_completedAt = Some 700, cp_completionPercent = 40,
      cp_totalItems = 10, cp_completedItems = 4, cp_lastVisitedItemId = Some 1,
      cp_meta = Some (JStr ''m''), cp_createdAt = 200, cp_updatedAt = 300\<rparr>"

definition progress2 :: course_progress where
  "progress2 =
     \<lparr>cp_id = 2, cp_courseId = 2, cp_userId = ''alice'', cp_status = P_not_started,
      cp_startedAt = Some 150, cp_completedAt = None, cp_completionPercent = 0,
      cp_totalItems = 0, cp_completedItems = 0, cp_lastVisitedItemId = None,
      cp_meta = Some (JStr ''k''), cp_createdAt = 150, cp_updatedAt = 150\<rparr>"

definition store1 :: store where
  "store1 =
     \<lparr>Courses = [course1, course2], CourseItems = [item1, item2],
      CourseProgress = [progress1, progress2], CourseItemProgress = [], journal = []\<rparr>"

definition status_only :: updateCourse_input where
  "status_only = \<lparr>uc_id = 1, uc_title = None, uc_description = None, uc_provider = None,
     uc_platform = None, uc_url = None, uc_level = None, uc_tags = None, uc_status = Some In_progress\<rparr>"

definition only_status :: upsertCourseProgress_input where
  "only_status = \<lparr>up_courseId = 1, up_status = Some P_completed, up_completionPercent = None,
     up_totalItems = None, up_completedItems = None, up_lastVisitedItemId = None, up_meta = None\<rparr>"

definition null_meta :: upsertCourseProgress_input where
  "null_meta = \<lparr>up_courseId = 2, up_status = None, up_completionPercent = None,
     up_totalItems = None, up_completedItems = None, up_lastVisitedItemId = None,
     up_meta = Some JNull\<rparr>"

definition visit_missing :: upsertCourseProgress_input where
  "visit_missing = \<lparr>up_courseId = 1, up_status = None, up_completionPercent = None,
     up_totalItems = None, up_completedItems = None, up_lastVisitedItemId = Some 999,
     up_meta = None\<rparr>"


definition new_lesson :: saveCourseItem_input where
  "new_lesson =
     \<lparr>si_id = None, si_courseId = 1, si_type = None, si_title = ''Lesson 1'',
      si_description = None, si_position = None, si_dueDate = None,
      si_estimatedMinutes = None, si_isRequired = None\<rparr>"

definition move_item :: saveCourseItem_input where
  "move_item =
     \<lparr>si_id = Some 2, si_courseId = 1, si_type = None, si_title = ''Vectors'',
      si_description = None, si_position = None, si_dueDate = None,
      si_estimatedMinutes = None, si_isRequired = None\<rparr>"

definition rename_item :: saveCourseItem_input where
  "rename_item =
     \<lparr>si_id = Some 1, si_courseId = 1, si_type = None, si_title = ''Renamed'',
      si_description = None, si_position = None, si_dueDate = None,
      si_estimatedMinutes = None, si_isRequired = None\<rparr>"

section \<open>Facts about the query builder\<close>

lemma first_select_limit1: "first (db_select_limit1 p rows) = List.find p rows"
  by (induction rows) (auto simp: first_def db_select_limit1_def)

lemma fold_max_ge: "(a::int) \<le> fold max ids a"
proof (induction ids arbitrary: a)
  case Nil
  show ?case by simp
next
  case (Cons x xs)
  have "a \<le> max x a" by simp
  also have "max x a \<le> fold max xs (max x a)" by (rule Cons.IH)
  finally show ?case by simp
qed

lemma fold_max_mem: "i \<in> set ids \<Longrightarrow> (i::int) \<le> fold max ids a"
proof (induction ids arbitrary: a)
  case Nil
  then show ?case by simp
next
  case (Cons x xs)
  show ?case
  proof (cases "i = x")
    case True
    have "i \<le> max x a" using True by simp
    also have "max x a \<le> fold max xs (max x a)" by (rule fold_max_ge)
    finally show ?thesis by simp
  next
    case False
    with Cons.prems have "i \<in> set xs" by simp
    then show ?thesis by (simp add: Cons.IH)
  qed
qed

lemma next_id_gt: "i \<in> set ids \<Longrightarrow> i < next_id ids"
  using fold_max_mem [of i ids 0] by (simp add: next_id_def)

lemma next_id_pos: "1 \<le> next_id ids"
  using fold_max_ge [of 0 ids] by (simp add: next_id_def)

lemma filter_none_keeps: "filter p rows = [] \<Longrightarrow> filter (\<lambda>r. \<not> p r) rows = rows"
  by (induction rows) (auto split: if_splits)

lemma first_None: "first rows = None \<longleftrightarrow> rows = []"
  by (cases rows) (simp_all add: first_def)

lemma db_delete_none:
  assumes "db_delete p rows = (rows', ret)" and "first ret = None"
  shows "rows' = rows"
proof -
  from assms have "filter p rows = []" by (simp add: db_delete_def first_None)
  then have "filter (\<lambda>r. \<not> p r) rows = rows" by (rule filter_none_keeps)
  with assms(1) show ?thesis by (simp add: db_delete_def)
qed

lemma map_update_frame:
  "(\<And>r. g (f r) = g r) \<Longrightarrow> map g (map (\<lambda>r. if p r then f r else r) rows) = map g rows"
  by (induction rows) simp_all

lemma first_map_filter: "first (map f (filter p rows)) = map_option f (List.find p rows)"
  by (induction rows) (simp_all add: first_def)

lemmas fixtures = alice_def bob_def ctx_of_def ctx_anonymous_def env0_def env1_def intro_to_go_def
  course1_def course2_def item1_def item2_def progress1_def progress2_def store1_def
  empty_store_def
lemmas eval_defs = requireUser_def locals_user_def owned_course_def db_select_def db_select_limit1_def
  db_insert_def db_update_def db_delete_def first_def next_id_def tables_def
  references_course_def references_item_def CourseProgress_references_def item_referenced_def

section \<open>The guard\<close>

text \<open>
  Claim C7. Whatever the action and its input, when the request context carries no
  authenticated user (no \<^verbatim>\<open>locals\<close>, or no \<^verbatim>\<open>user\<close> in them) the action raises
  \<open>UNAUTHORIZED\<close>; it returns no result and leaves the store as it was.
\<close>

theorem unauthenticated_rejected:
  assumes "locals_user ctx = None"
  shows "server a ctx e s = (Inl UNAUTHORIZED, s)"
  using assms
  by (cases a)
     (simp_all add: requireUser_def createCourse_def updateCourse_def listMyCourses_def
        getCourseWithItems_def saveCourseItem_def deleteCourseItem_def
        upsertCourseProgress_def updateCourseItemProgress_def)

theorem unauthenticated_rejected_witness:
  "locals_user ctx_anonymous = None \<and>
   server (UpdateCourseItemProgress \<lparr>ip_itemId = 1, ip_status = Some I_completed,
      ip_startedAt = None, ip_completedAt = None, ip_notes = None\<rparr>) ctx_anonymous env0 store1
     = (Inl UNAUTHORIZED, store1)"
proof -
  have h: "locals_user ctx_anonymous = None"
    by (simp add: locals_user_def ctx_anonymous_def)
  from unauthenticated_rejected [OF h] h show ?thesis by (simp del: server.simps)
qed

section \<open>Ownership\<close>

lemma owned_course_None:
  assumes "distinct (map c_id (Courses s))" "c \<in> set (Courses s)" "c_ownerId c \<noteq> u_id usr"
  shows "owned_course (c_id c) usr s = None"
proof -
  have "\<not> (c_id x = c_id c \<and> c_ownerId x = u_id usr)" if "x \<in> set (Courses s)" for x
  proof
    assume h: "c_id x = c_id c \<and> c_ownerId x = u_id usr"
    from assms(1) have "inj_on c_id (set (Courses s))" by (simp add: distinct_map)
    with that assms(2) h have "x = c" by (auto dest: inj_onD)
    with h assms(3) show False by simp
  qed
  then show ?thesis by (simp add: owned_course_def first_select_limit1 find_None_iff)
qed

text \<open>
  Claim C1. Let \<open>c\<close> be a row of \<^verbatim>\<open>Courses\<close> whose owner is not the acting user.
  Then \<^verbatim>\<open>updateCourse\<close> with the id of \<open>c\<close>, \<^verbatim>\<open>getCourseWithItems\<close> with the id of \<open>c\<close>
  and \<^verbatim>\<open>deleteCourseItem\<close> with \<^verbatim>\<open>courseId\<close> the id of \<open>c\<close> all raise \<open>NOT_FOUND\<close>,
  although the row exists. The key \<^verbatim>\<open>id\<close> is the primary key of \<^verbatim>\<open>Courses\<close>: no other
  row has the id of \<open>c\<close>.
\<close>

theorem not_owner_NOT_FOUND:
  assumes "distinct (map c_id (Courses s))" and "c \<in> set (Courses s)"
    and "requireUser ctx = Inr usr" and "c_ownerId c \<noteq> u_id usr"
  shows "updateCourse (ui\<lparr>uc_id := c_id c\<rparr>) ctx e s = (Inl NOT_FOUND, s) \<and>
         getCourseWithItems \<lparr>gc_id = c_id c\<rparr> ctx e s = (Inl NOT_FOUND, s) \<and>
         deleteCourseItem \<lparr>di_id = iid, di_courseId = c_id c\<rparr> ctx e s = (Inl NOT_FOUND, s)"
  using owned_course_None [OF assms(1,2,4)] assms(3)
  by (simp add: updateCourse_def getCourseWithItems_def deleteCourseItem_def)

theorem not_owner_NOT_FOUND_witness:
  "distinct (map c_id (Courses store1)) \<and> course1 \<in> set (Courses store1) \<and>
   requireUser (ctx_of bob) = Inr bob \<and> c_ownerId course1 \<noteq> u_id bob \<and>
   updateCourse \<lparr>uc_id = 1, uc_title = Some ''Mine'', uc_description = None, uc_provider = None,
       uc_platform = None, uc_url = None, uc_level = None, uc_tags = None, uc_status = None\<rparr>
     (ctx_of bob) env0 store1 = (Inl NOT_FOUND, store1) \<and>
   getCourseWithItems \<lparr>gc_id = 1\<rparr> (ctx_of bob) env0 store1 = (Inl NOT_FOUND, store1) \<and>
   deleteCourseItem \<lparr>di_id = 1, di_courseId = 1\<rparr> (ctx_of bob) env0 store1
     = (Inl NOT_FOUND, store1)"
proof -
  have h1: "distinct (map c_id (Courses store1))" by (simp add: fixtures)
  have h2: "course1 \<in> set (Courses store1)" by (simp add: store1_def)
  have h3: "requireUser (ctx_of bob) = Inr bob" by (simp add: requireUser_def locals_user_def ctx_of_def)
  have h4: "c_ownerId course1 \<noteq> u_id bob" by (simp add: fixtures)
  have c1: "c_id course1 = 1" by (simp add: course1_def)
  from not_owner_NOT_FOUND [OF h1 h2 h3 h4, of "\<lparr>uc_id = 1, uc_title = Some ''Mine'', uc_description = None, uc_provider = None,
       uc_platform = None, uc_url = None, uc_level = None, uc_tags = None, uc_status = None\<rparr>" env0 1]
  show ?thesis using h1 h2 h3 h4 by (simp add: c1)
qed

section \<open>createCourse\<close>

text \<open>
  Claim C5. For an authenticated user, \<^verbatim>\<open>createCourse\<close> returns the row it has
  appended to \<^verbatim>\<open>Courses\<close>; its \<^verbatim>\<open>ownerId\<close> is the acting user's id, its \<^verbatim>\<open>level\<close> is the
  supplied level or \<^verbatim>\<open>beginner\<close>, and its \<^verbatim>\<open>status\<close> is the supplied status or
  \<^verbatim>\<open>planned\<close>.
\<close>

theorem createCourse_owner_and_defaults:
  assumes "requireUser ctx = Inr usr"
  shows "\<exists>c. createCourse input ctx e s =
               (Inr (R_course (Some c)),
                s\<lparr>Courses := Courses s @ [c], journal := journal s @ [INSERT T_Courses]\<rparr>)
           \<and> c_ownerId c = u_id usr
           \<and> c_level c = (case cc_level input of None \<Rightarrow> Beginner | Some l \<Rightarrow> l)
           \<and> c_status c = (case cc_status input of None \<Rightarrow> Planned | Some st \<Rightarrow> st)"
  using assms by (simp add: createCourse_def db_insert_def first_def Let_def)

theorem createCourse_owner_and_defaults_witness:
  "requireUser (ctx_of alice) = Inr alice \<and>
   (\<exists>c. createCourse intro_to_go (ctx_of alice) env0 empty_store =
          (Inr (R_course (Some c)),
           empty_store\<lparr>Courses := Courses empty_store @ [c],
                        journal := journal empty_store @ [INSERT T_Courses]\<rparr>)
        \<and> c_ownerId c = u_id alice
        \<and> c_level c = (case cc_level intro_to_go of None \<Rightarrow> Beginner | Some l \<Rightarrow> l)
        \<and> c_status c = (case cc_status intro_to_go of None \<Rightarrow> Planned | Some st \<Rightarrow> st))"
proof -
  have h: "requireUser (ctx_of alice) = Inr alice"
    by (simp add: requireUser_def locals_user_def ctx_of_def)
  from createCourse_owner_and_defaults [OF h] h show ?thesis by blast
qed

section \<open>updateCourse\<close>

lemma updateData_keys_empty:
  "length (updateData_keys input) = 0 \<longleftrightarrow>
   uc_title input = None \<and> uc_description input = None \<and> uc_provider input = None \<and>
   uc_platform input = None \<and> uc_url input = None \<and> uc_level input = None \<and>
   uc_tags input = None \<and> uc_status input = None"
  by (simp add: updateData_keys_def)

lemma Courses_set_frame:
  "c_id (Courses_set input now r) = c_id r"
  "c_ownerId (Courses_set input now r) = c_ownerId r"
  "c_createdAt (Courses_set input now r) = c_createdAt r"
  "uc_title input = None \<Longrightarrow> c_title (Courses_set input now r) = c_title r"
  "uc_description input = None \<Longrightarrow> c_description (Courses_set input now r) = c_description r"
  "uc_provider input = None \<Longrightarrow> c_provider (Courses_set input now r) = c_provider r"
  "uc_platform input = None \<Longrightarrow> c_platform (Courses_set input now r) = c_platform r"
  "uc_url input = None \<Longrightarrow> c_url (Courses_set input now r) = c_url r"
  "uc_level input = None \<Longrightarrow> c_level (Courses_set input now r) = c_level r"
  "uc_tags input = None \<Longrightarrow> c_tags (Courses_set input now r) = c_tags r"
  "uc_status input = None \<Longrightarrow> c_status (Courses_set input now r) = c_status r"
  by (simp_all add: Courses_set_def assign_def assign_req_def of_input_def)

text \<open>The two ways updateCourse leaves the store.\<close>

lemma updateCourse_store:
  assumes "updateCourse input ctx e s = (out, s')"
  shows "s' = s \<or>
         (\<exists>p. s' = s\<lparr>Courses := map (\<lambda>c. if p c then Courses_set input (new_Date e 0) c else c) (Courses s),
                      journal := journal s @ [UPDATE T_Courses]\<rparr>)"
  using assms
  by (auto simp: updateCourse_def db_update_def split: sum.splits option.splits if_splits)

lemma updateCourse_tables_frame:
  assumes "updateCourse input ctx e s = (out, s')"
      and "\<And>r. g (Courses_set input (new_Date e 0) r) = g r"
  shows "map g (Courses s') = map g (Courses s)"
  using updateCourse_store [OF assms(1)] map_update_frame [of g "Courses_set input (new_Date e 0)", OF assms(2)]
  by auto

lemma updateCourse_other_tables:
  assumes "updateCourse input ctx e s = (out, s')"
  shows "CourseItems s' = CourseItems s \<and> CourseProgress s' = CourseProgress s \<and>
         CourseItemProgress s' = CourseItemProgress s"
  using updateCourse_store [OF assms] by auto

lemma updateCourse_returned:
  assumes "requireUser ctx = Inr usr" and "owned_course (uc_id input) usr s = Some existing"
  shows "fst (updateCourse input ctx e s) =
           Inr (R_course (Some (if length (updateData_keys input) = 0 then existing
                                else Courses_set input (new_Date e 0) existing)))"
  using assms
  by (simp add: updateCourse_def db_update_def first_map_filter owned_course_def first_select_limit1)

lemma updateCourse_empty:
  assumes "requireUser ctx = Inr usr" and "owned_course (uc_id input) usr s = Some existing"
    and "length (updateData_keys input) = 0"
  shows "updateCourse input ctx e s = (Inr (R_course (Some existing)), s)"
  using assms by (simp add: updateCourse_def)

text \<open>
  Claim C4. \<^verbatim>\<open>updateCourse\<close> changes no column that is absent from its input: the
  key, the owner and \<^verbatim>\<open>createdAt\<close> of every course stay, each of the eight mutable
  columns stays in every course when its field is absent, and the other three tables
  stay. For an owned course the returned record agrees with the stored one on every
  absent field, and when all eight fields are absent the call returns the stored record
  as it is (with its \<^verbatim>\<open>updatedAt\<close>) and leaves the store, journal included, as it was.
\<close>

theorem updateCourse_frame:
  assumes run: "updateCourse input ctx e s = (out, s')"
  shows "map c_id (Courses s') = map c_id (Courses s) \<and>
         map c_ownerId (Courses s') = map c_ownerId (Courses s) \<and>
         map c_createdAt (Courses s') = map c_createdAt (Courses s) \<and>
         (uc_title input = None \<longrightarrow> map c_title (Courses s') = map c_title (Courses s)) \<and>
         (uc_description input = None \<longrightarrow>
            map c_description (Courses s') = map c_description (Courses s)) \<and>
         (uc_provider input = None \<longrightarrow> map c_provider (Courses s') = map c_provider (Courses s)) \<and>
         (uc_platform input = None \<longrightarrow> map c_platform (Courses s') = map c_platform (Courses s)) \<and>
         (uc_url input = None \<longrightarrow> map c_url (Courses s') = map c_url (Courses s)) \<and>
         (uc_level input = None \<longrightarrow> map c_level (Courses s') = map c_level (Courses s)) \<and>
         (uc_tags input = None \<longrightarrow> map c_tags (Courses s') = map c_tags (Courses s)) \<and>
         (uc_status input = None \<longrightarrow> map c_status (Courses s') = map c_status (Courses s)) \<and>
         CourseItems s' = CourseItems s \<and> CourseProgress s' = CourseProgress s \<and>
         CourseItemProgress s' = CourseItemProgress s \<and>
         (\<forall>usr existing.
            requireUser ctx = Inr usr \<and> owned_course (uc_id input) usr s = Some existing \<longrightarrow>
            (\<exists>c. out = Inr (R_course (Some c)) \<and>
                 c_id c = c_id existing \<and> c_ownerId c = c_ownerId existing \<and>
                 c_createdAt c = c_createdAt existing \<and>
                 (uc_title input = None \<longrightarrow> c_title c = c_title existing) \<and>
                 (uc_description input = None \<longrightarrow> c_description c = c_description existing) \<and>
                 (uc_provider input = None \<longrightarrow> c_provider c = c_provider existing) \<and>
                 (uc_platform input = None \<longrightarrow> c_platform c = c_platform existing) \<and>
                 (uc_url input = None \<longrightarrow> c_url c = c_url existing) \<and>
                 (uc_level input = None \<longrightarrow> c_level c = c_level existing) \<and>
                 (uc_tags input = None \<longrightarrow> c_tags c = c_tags existing) \<and>
                 (uc_status input = None \<longrightarrow> c_status c = c_status existing) \<and>
                 (uc_title input = None \<and> uc_description input = None \<and>
                  uc_provider input = None \<and> uc_platform input = None \<and>
                  uc_url input = None \<and> uc_level input = None \<and> uc_tags input = None \<and>
                  uc_status input = None \<longrightarrow> c = existing \<and> s' = s)))"
proof -
  note tf = updateCourse_tables_frame [OF run]
  have a: "map c_id (Courses s') = map c_id (Courses s)"
    "map c_ownerId (Courses s') = map c_ownerId (Courses s)"
    "map c_createdAt (Courses s') = map c_createdAt (Courses s)"
    by (rule tf, rule Courses_set_frame)+
  have b: "uc_title input = None \<longrightarrow> map c_title (Courses s') = map c_title (Courses s)"
    "uc_description input = None \<longrightarrow> map c_description (Courses s') = map c_description (Courses s)"
    "uc_provider input = None \<longrightarrow> map c_provider (Courses s') = map c_provider (Courses s)"
    "uc_platform input = None \<longrightarrow> map c_platform (Courses s') = map c_platform (Courses s)"
    "uc_url input = None \<longrightarrow> map c_url (Courses s') = map c_url (Courses s)"
    "uc_level input = None \<longrightarrow> map c_level (Courses s') = map c_level (Courses s)"
    "uc_tags input = None \<longrightarrow> map c_tags (Courses s') = map c_tags (Courses s)"
    "uc_status input = None \<longrightarrow> map c_status (Courses s') = map c_status (Courses s)"
    by (auto intro: tf simp: Courses_set_frame)
  note c = updateCourse_other_tables [OF run]
  have d: "\<exists>c. out = Inr (R_course (Some c)) \<and>
                 c_id c = c_id existing \<and> c_ownerId c = c_ownerId existing \<and>
                 c_createdAt c = c_createdAt existing \<and>
                 (uc_title input = None \<longrightarrow> c_title c = c_title existing) \<and>
                 (uc_description input = None \<longrightarrow> c_description c = c_description existing) \<and>
                 (uc_provider input = None \<longrightarrow> c_provider c = c_provider existing) \<and>
                 (uc_platform input = None \<longrightarrow> c_platform c = c_platform existing) \<and>
                 (uc_url input = None \<longrightarrow> c_url c = c_url existing) \<and>
                 (uc_level input = None \<longrightarrow> c_level c = c_level existing) \<and>
                 (uc_tags input = None \<longrightarrow> c_tags c = c_tags existing) \<and>
                 (uc_status input = None \<longrightarrow> c_status c = c_status existing) \<and>
                 (uc_title input = None \<and> uc_description input = None \<and>
                  uc_provider input = None \<and> uc_platform input = None \<and>
                  uc_url input = None \<and> uc_level input = None \<and> uc_tags input = None \<and>
                  uc_status input = None \<longrightarrow> c = existing \<and> s' = s)"
    if u: "requireUser ctx = Inr usr" and o: "owned_course (uc_id input) usr s = Some existing"
    for usr existing
  proof (cases "length (updateData_keys input) = 0")
    case True
    from updateCourse_empty [OF u o True] run
    have "out = Inr (R_course (Some existing))" "s' = s" by simp_all
    then show ?thesis by simp
  next
    case False
    from updateCourse_returned [OF u o, of e] run False
    have "out = Inr (R_course (Some (Courses_set input (new_Date e 0) existing)))" by simp
    moreover from False have
      "\<not> (uc_title input = None \<and> uc_description input = None \<and>
                  uc_provider input = None \<and> uc_platform input = None \<and>
                  uc_url input = None \<and> uc_level input = None \<and> uc_tags input = None \<and>
                  uc_status input = None)"
      by (simp only: updateData_keys_empty not_False_eq_True)
    ultimately show ?thesis by (auto simp: Courses_set_frame)
  qed
  from a b c d show ?thesis by blast
qed

theorem updateCourse_frame_witness:
  "updateCourse status_only (ctx_of alice) env0 store1 =
     (Inr (R_course (Some (course1\<lparr>c_status := In_progress, c_updatedAt := 1000\<rparr>))),
      store1\<lparr>Courses := [course1\<lparr>c_status := In_progress, c_updatedAt := 1000\<rparr>, course2],
             journal := [UPDATE T_Courses]\<rparr>) \<and>
   map c_title (Courses (store1\<lparr>Courses := [course1\<lparr>c_status := In_progress, c_updatedAt := 1000\<rparr>, course2],
             journal := [UPDATE T_Courses]\<rparr>)) = map c_title (Courses store1) \<and>
   map c_description (Courses (store1\<lparr>Courses := [course1\<lparr>c_status := In_progress, c_updatedAt := 1000\<rparr>, course2],
             journal := [UPDATE T_Courses]\<rparr>)) = map c_description (Courses store1)"
proof -
  have run: "updateCourse status_only (ctx_of alice) env0 store1 =
     (Inr (R_course (Some (course1\<lparr>c_status := In_progress, c_updatedAt := 1000\<rparr>))),
      store1\<lparr>Courses := [course1\<lparr>c_status := In_progress, c_updatedAt := 1000\<rparr>, course2],
             journal := [UPDATE T_Courses]\<rparr>)"
    by (simp add: updateCourse_def updateData_keys_def Courses_set_def assign_def assign_req_def
          of_input_def status_only_def eval_defs fixtures)
  have abs: "uc_title status_only = None" "uc_description status_only = None"
    by (simp_all add: status_only_def)
  from updateCourse_frame [OF run] abs run show ?thesis by blast
qed

section \<open>Errors and the store\<close>

lemma createCourse_error: "fst (createCourse input ctx e s) = Inl err \<Longrightarrow> createCourse input ctx e s = (Inl err, s)"
  by (auto simp: createCourse_def db_insert_def Let_def split: sum.splits)

lemma updateCourse_error: "fst (updateCourse input ctx e s) = Inl err \<Longrightarrow> updateCourse input ctx e s = (Inl err, s)"
  by (auto simp: updateCourse_def db_update_def Let_def split: sum.splits option.splits if_splits)

lemma listMyCourses_error: "fst (listMyCourses input ctx e s) = Inl err \<Longrightarrow> listMyCourses input ctx e s = (Inl err, s)"
  by (auto simp: listMyCourses_def Let_def split: sum.splits)

lemma getCourseWithItems_error: "fst (getCourseWithItems input ctx e s) = Inl err \<Longrightarrow> getCourseWithItems input ctx e s = (Inl err, s)"
  by (auto simp: getCourseWithItems_def Let_def split: sum.splits option.splits)

lemma saveCourseItem_error: "fst (saveCourseItem input ctx e s) = Inl err \<Longrightarrow> saveCourseItem input ctx e s = (Inl err, s)"
  by (auto simp: saveCourseItem_def db_update_def db_insert_def Let_def split: sum.splits option.splits if_splits)

lemma upsertCourseProgress_error: "fst (upsertCourseProgress input ctx e s) = Inl err \<Longrightarrow> upsertCourseProgress input ctx e s = (Inl err, s)"
  by (auto simp: upsertCourseProgress_def db_update_def db_insert_def Let_def split: sum.splits option.splits if_splits)

lemma updateCourseItemProgress_error: "fst (updateCourseItemProgress input ctx e s) = Inl err \<Longrightarrow> updateCourseItemProgress input ctx e s = (Inl err, s)"
  by (auto simp: updateCourseItemProgress_def db_update_def db_insert_def Let_def split: sum.splits option.splits if_splits)

lemma deleteCourseItem_error:
  assumes "fst (deleteCourseItem input ctx e s) = Inl err"
  shows "deleteCourseItem input ctx e s = (Inl err, s) \<or>
         deleteCourseItem input ctx e s = (Inl err, s\<lparr>journal := journal s @ [DELETE T_CourseItems]\<rparr>)"
proof (cases "requireUser ctx")
  case (Inl x)
  with assms show ?thesis by (simp add: deleteCourseItem_def)
next
  case (Inr usr)
  show ?thesis
  proof (cases "owned_course (di_courseId input) usr s")
    case None
    with Inr assms show ?thesis by (simp add: deleteCourseItem_def)
  next
    case (Some course)
    obtain rows ret where d:
      "db_delete (\<lambda>i. ci_id i = di_id input \<and> ci_courseId i = di_courseId input) (CourseItems s)
         = (rows, ret)"
      by (cases "db_delete (\<lambda>i. ci_id i = di_id input \<and> ci_courseId i = di_courseId input) (CourseItems s)")
    show ?thesis
    proof (cases "first ret")
      case None
      with d have "rows = CourseItems s" by (rule db_delete_none)
      moreover from None have "ret = []" by (simp add: first_None)
      ultimately show ?thesis
        using Inr Some d None assms by (simp add: deleteCourseItem_def Let_def)
    next
      case (Some deleted)
      with Inr \<open>owned_course (di_courseId input) usr s = Some course\<close> d assms show ?thesis
        by (simp add: deleteCourseItem_def Let_def split: if_splits)
    qed
  qed
qed

text \<open>
  Claim C8, as amended. An action that raises \<open>UNAUTHORIZED\<close> or \<open>NOT_FOUND\<close> leaves the
  four tables as they were. In seven handlers it has sent no mutating statement by
  then; \<^verbatim>\<open>deleteCourseItem\<close> raises its second \<open>NOT_FOUND\<close> after its \<^verbatim>\<open>DELETE\<close>
  statement, which then has removed no row. (The theorem also covers the error of a
  statement that a reference rejects: such a statement writes nothing.)
\<close>

theorem error_leaves_tables_unchanged:
  assumes "fst (server a ctx e s) = Inl err"
  shows "tables (snd (server a ctx e s)) = tables s \<and>
         (journal (snd (server a ctx e s)) = journal s \<or>
          (\<exists>input. a = DeleteCourseItem input) \<and>
          journal (snd (server a ctx e s)) = journal s @ [DELETE T_CourseItems])"
proof (cases a)
  case (CreateCourse input)
  with assms createCourse_error [of input ctx e s err] show ?thesis
    by (simp add: tables_def)
next
  case (UpdateCourse input)
  with assms updateCourse_error [of input ctx e s err] show ?thesis
    by (simp add: tables_def)
next
  case (ListMyCourses input)
  with assms listMyCourses_error [of input ctx e s err] show ?thesis
    by (simp add: tables_def)
next
  case (GetCourseWithItems input)
  with assms getCourseWithItems_error [of input ctx e s err] show ?thesis
    by (simp add: tables_def)
next
  case (SaveCourseItem input)
  with assms saveCourseItem_error [of input ctx e s err] show ?thesis
    by (simp add: tables_def)
next
  case (DeleteCourseItem input)
  with assms deleteCourseItem_error [of input ctx e s err] show ?thesis
    by (auto simp: tables_def)
next
  case (UpsertCourseProgress input)
  with assms upsertCourseProgress_error [of input ctx e s err] show ?thesis
    by (simp add: tables_def)
next
  case (UpdateCourseItemProgress input)
  with assms updateCourseItemProgress_error [of input ctx e s err] show ?thesis
    by (simp add: tables_def)
qed

theorem error_leaves_tables_unchanged_witness:
  "fst (server (GetCourseWithItems \<lparr>gc_id = 7\<rparr>) (ctx_of alice) env0 store1) = Inl NOT_FOUND \<and>
   tables (snd (server (GetCourseWithItems \<lparr>gc_id = 7\<rparr>) (ctx_of alice) env0 store1)) = tables store1"
proof -
  have h: "fst (server (GetCourseWithItems \<lparr>gc_id = 7\<rparr>) (ctx_of alice) env0 store1) = Inl NOT_FOUND"
    by (simp add: getCourseWithItems_def eval_defs fixtures)
  from error_leaves_tables_unchanged [OF h] h show ?thesis by (simp del: server.simps)
qed

text \<open>
  Claim C8 as stated has every error check before the mutating statement. On a store
  where alice owns course 1 and no item has id 99, \<^verbatim>\<open>deleteCourseItem\<close> sends its
  \<^verbatim>\<open>DELETE\<close> and raises \<open>NOT_FOUND\<close> afterwards.
\<close>

theorem check_precedes_write_counterexample:
  "fst (server (DeleteCourseItem \<lparr>di_id = 99, di_courseId = 1\<rparr>) (ctx_of alice) env0 store1)
     = Inl NOT_FOUND \<and>
   journal (snd (server (DeleteCourseItem \<lparr>di_id = 99, di_courseId = 1\<rparr>) (ctx_of alice) env0 store1))
     = [DELETE T_CourseItems] \<and>
   journal store1 = []"
  by (simp add: deleteCourseItem_def eval_defs fixtures)

text \<open>The \<^verbatim>\<open>DELETE\<close> of an item that a progress row refers to is rejected: alice's
  progress row for course 1 has item 1 as its \<^verbatim>\<open>lastVisitedItemId\<close>, and the call that
  deletes item 1 throws and leaves the store as it was.\<close>

lemma deleteCourseItem_referenced_item:
  "deleteCourseItem \<lparr>di_id = 1, di_courseId = 1\<rparr> (ctx_of alice) env0 store1
     = (Inl SQLITE_CONSTRAINT_FOREIGNKEY, store1)"
  by (simp add: deleteCourseItem_def eval_defs fixtures Let_def)

section \<open>upsertCourseProgress\<close>

text \<open>
  Claim C10. \<^verbatim>\<open>upsertCourseProgress\<close> never sets or clears \<^verbatim>\<open>completedAt\<close>: either the
  \<^verbatim>\<open>completedAt\<close> column of \<^verbatim>\<open>CourseProgress\<close> is, row by row, what it was (the call
  failed, or it updated), or the call has appended one row whose \<^verbatim>\<open>completedAt\<close> is
  absent.
\<close>

theorem upsertCourseProgress_completedAt:
  "map cp_completedAt (CourseProgress (snd (upsertCourseProgress input ctx e s))) =
     map cp_completedAt (CourseProgress s) \<or>
   (\<exists>p. CourseProgress (snd (upsertCourseProgress input ctx e s)) = CourseProgress s @ [p] \<and>
        cp_completedAt p = None)"
proof -
  have f: "cp_completedAt (CourseProgress_set v r) = cp_completedAt r" for v r
    by (simp add: CourseProgress_set_def)
  show ?thesis
    by (auto simp: upsertCourseProgress_def db_update_def db_insert_def Let_def
          CourseProgress_values_def f
        split: sum.splits option.splits)
qed

lemmas upsert_eval = upsertCourseProgress_def existing_progress_def upsertCourseProgress_baseValues_def
  CourseProgress_set_def CourseProgress_values_def input_or_existing_def opt_chain_def of_column_def
  of_input_def of_json_def of_json_column_def nullish_or_def assign_def stored_def

theorem upsertCourseProgress_completedAt_witness:
  "map cp_completedAt (CourseProgress (snd (upsertCourseProgress only_status (ctx_of alice) env0 store1)))
     = [Some 700, None]"
  using upsertCourseProgress_completedAt [of only_status "ctx_of alice" env0 store1]
  by (simp add: only_status_def upsert_eval eval_defs fixtures)

lemma find_Some_mem: "List.find p rows = Some r \<Longrightarrow> r \<in> set rows \<and> p r"
  by (induction rows) (auto split: if_splits)

lemma find_exists: "r \<in> set rows \<Longrightarrow> p r \<Longrightarrow> \<exists>r0. List.find p rows = Some r0"
  by (induction rows) auto

lemma existing_progress_find:
  "existing_progress cid usr s =
     List.find (\<lambda>p. cp_courseId p = cid \<and> cp_userId p = u_id usr) (CourseProgress s)"
  by (simp add: existing_progress_def first_select_limit1)

text \<open>The values \<^verbatim>\<open>baseValues\<close> holds, field by field.\<close>

lemma baseValues_fields:
  "pv_courseId (upsertCourseProgress_baseValues input usr existing e) = up_courseId input"
  "pv_userId (upsertCourseProgress_baseValues input usr existing e) = u_id usr"
  "pv_status (upsertCourseProgress_baseValues input usr existing e) =
     (case up_status input of Some v \<Rightarrow> v
      | None \<Rightarrow> (case existing of Some r \<Rightarrow> cp_status r | None \<Rightarrow> P_not_started))"
  "pv_completionPercent (upsertCourseProgress_baseValues input usr existing e) =
     (case up_completionPercent input of Some v \<Rightarrow> v
      | None \<Rightarrow> (case existing of Some r \<Rightarrow> cp_completionPercent r | None \<Rightarrow> 0))"
  "pv_totalItems (upsertCourseProgress_baseValues input usr existing e) =
     (case up_totalItems input of Some v \<Rightarrow> v
      | None \<Rightarrow> (case existing of Some r \<Rightarrow> cp_totalItems r | None \<Rightarrow> 0))"
  "pv_completedItems (upsertCourseProgress_baseValues input usr existing e) =
     (case up_completedItems input of Some v \<Rightarrow> v
      | None \<Rightarrow> (case existing of Some r \<Rightarrow> cp_completedItems r | None \<Rightarrow> 0))"
  "pv_startedAt (upsertCourseProgress_baseValues input usr existing e) =
     (case existing of
        Some r \<Rightarrow> (case cp_startedAt r of Some d \<Rightarrow> d | None \<Rightarrow> new_Date e 0)
      | None \<Rightarrow> new_Date e 0)"
  by (simp_all add: upsertCourseProgress_baseValues_def input_or_existing_def opt_chain_def
        of_column_def Let_def split: option.splits)

lemma baseValues_lastVisitedItemId:
  "stored (pv_lastVisitedItemId (upsertCourseProgress_baseValues input usr existing e)) =
     (case up_lastVisitedItemId input of Some v \<Rightarrow> Some v
      | None \<Rightarrow> (case existing of Some r \<Rightarrow> cp_lastVisitedItemId r | None \<Rightarrow> None))"
  "assign (pv_lastVisitedItemId (upsertCourseProgress_baseValues input usr (Some ex) e)) old =
     stored (pv_lastVisitedItemId (upsertCourseProgress_baseValues input usr (Some ex) e))"
  by (simp_all add: upsertCourseProgress_baseValues_def opt_chain_def of_column_def of_input_def
        nullish_or_def stored_def assign_def Let_def split: option.splits)

lemma of_json_cases:
  "of_json v = (if v = None then Undefined else if v = Some JNull then Null else Val (the v))"
  by (cases v) (auto simp: of_json_def split: json.splits)

lemma of_json_column_cases:
  "of_json_column v = (if v = None \<or> v = Some JNull then Null else Val (the v))"
  by (cases v) (auto simp: of_json_column_def split: json.splits)

lemma baseValues_meta:
  "stored (pv_meta (upsertCourseProgress_baseValues input usr existing e)) =
     (if up_meta input \<noteq> None \<and> up_meta input \<noteq> Some JNull then up_meta input
      else (case existing of
              Some r \<Rightarrow> (if cp_meta r = Some JNull then None else cp_meta r)
            | None \<Rightarrow> None))"
  "assign (pv_meta (upsertCourseProgress_baseValues input usr (Some ex) e)) old =
     stored (pv_meta (upsertCourseProgress_baseValues input usr (Some ex) e))"
  by (auto simp: upsertCourseProgress_baseValues_def opt_chain_def of_json_cases
        of_json_column_cases nullish_or_def stored_def assign_def Let_def split: option.splits)

text \<open>The course a handler has found by its id is a course to refer to, and so is the
  item it has found.\<close>

lemma owned_course_references:
  "owned_course cid usr s = Some course \<Longrightarrow> references_course cid s"
  using find_Some_mem [of "\<lambda>c. c_id c = cid \<and> c_ownerId c = u_id usr" "Courses s" course]
  by (auto simp: owned_course_def first_select_limit1 references_course_def)

lemma found_item_references:
  "first (db_select_limit1 (\<lambda>i. ci_id i = iid) (CourseItems s)) = Some item \<Longrightarrow>
   references_item (Some iid) s"
  using find_Some_mem [of "\<lambda>i. ci_id i = iid" "CourseItems s" item]
  by (auto simp: first_select_limit1 references_item_def)

lemma list_all_const: "(\<And>x. Q x = C) \<Longrightarrow> xs \<noteq> [] \<Longrightarrow> list_all Q xs = C"
  by (cases xs) (auto simp: list_all_iff)

text \<open>The references of the row \<^verbatim>\<open>upsertCourseProgress\<close> writes.\<close>

lemma CourseProgress_values_references:
  assumes "references_course (up_courseId input) s"
  shows "CourseProgress_references
           (CourseProgress_values (upsertCourseProgress_baseValues input usr existing e) now k) s
         = references_item
             (stored (pv_lastVisitedItemId (upsertCourseProgress_baseValues input usr existing e))) s"
  using assms
  by (simp add: CourseProgress_references_def CourseProgress_values_def baseValues_fields)

lemma CourseProgress_set_references:
  assumes "references_course (up_courseId input) s"
  shows "CourseProgress_references
           (CourseProgress_set (upsertCourseProgress_baseValues input usr (Some ex) e) r) s
         = references_item
             (stored (pv_lastVisitedItemId (upsertCourseProgress_baseValues input usr (Some ex) e))) s"
  using assms
  by (simp add: CourseProgress_references_def CourseProgress_set_def baseValues_fields
        baseValues_lastVisitedItemId(2))

lemma upsertCourseProgress_insert:
  assumes "requireUser ctx = Inr usr" and "owned_course (up_courseId input) usr s = Some course"
    and "existing_progress (up_courseId input) usr s = None"
  shows "upsertCourseProgress input ctx e s =
     (let p = CourseProgress_values (upsertCourseProgress_baseValues input usr None e) (NOW e)
                (next_id (map cp_id (CourseProgress s)))
      in if references_item
              (stored (pv_lastVisitedItemId (upsertCourseProgress_baseValues input usr None e))) s
         then (Inr (R_progress (Some p)),
               s\<lparr>CourseProgress := CourseProgress s @ [p],
                 journal := journal s @ [INSERT T_CourseProgress]\<rparr>)
         else (Inl SQLITE_CONSTRAINT_FOREIGNKEY, s))"
  using assms CourseProgress_values_references [OF owned_course_references [OF assms(2)]]
  by (simp add: upsertCourseProgress_def db_insert_def first_def Let_def)

lemma upsertCourseProgress_update:
  assumes "requireUser ctx = Inr usr" and "owned_course (up_courseId input) usr s = Some course"
    and "existing_progress (up_courseId input) usr s = Some ex"
  shows "upsertCourseProgress input ctx e s =
     (if references_item
           (stored (pv_lastVisitedItemId (upsertCourseProgress_baseValues input usr (Some ex) e))) s
      then (Inr (R_progress (map_option
                  (CourseProgress_set (upsertCourseProgress_baseValues input usr (Some ex) e))
                  (List.find (\<lambda>p. cp_id p = cp_id ex) (CourseProgress s)))),
            s\<lparr>CourseProgress :=
                 map (\<lambda>r. if cp_id r = cp_id ex
                          then CourseProgress_set
                                 (upsertCourseProgress_baseValues input usr (Some ex) e) r
                          else r) (CourseProgress s),
              journal := journal s @ [UPDATE T_CourseProgress]\<rparr>)
      else (Inl SQLITE_CONSTRAINT_FOREIGNKEY, s))"
proof -
  let ?f = "CourseProgress_set (upsertCourseProgress_baseValues input usr (Some ex) e)"
  let ?ret = "map ?f (filter (\<lambda>p. cp_id p = cp_id ex) (CourseProgress s))"
  from assms(3) have "ex \<in> set (CourseProgress s)"
    by (simp add: existing_progress_find find_Some_mem)
  then have "filter (\<lambda>p. cp_id p = cp_id ex) (CourseProgress s) \<noteq> []"
    by (auto simp: filter_empty_conv)
  then have ne: "?ret \<noteq> []" by simp
  have "list_all (\<lambda>r. CourseProgress_references r s) ?ret =
          list_all (\<lambda>r. CourseProgress_references (?f r) s)
            (filter (\<lambda>p. cp_id p = cp_id ex) (CourseProgress s))"
    by (simp add: list_all_iff)
  also have "\<dots> = references_item
             (stored (pv_lastVisitedItemId (upsertCourseProgress_baseValues input usr (Some ex) e))) s"
    using \<open>filter (\<lambda>p. cp_id p = cp_id ex) (CourseProgress s) \<noteq> []\<close>
    by (intro list_all_const
          CourseProgress_set_references [OF owned_course_references [OF assms(2)]])
  finally have chk: "list_all (\<lambda>r. CourseProgress_references r s) ?ret =
      references_item
        (stored (pv_lastVisitedItemId (upsertCourseProgress_baseValues input usr (Some ex) e))) s" .
  from assms show ?thesis
    by (simp add: upsertCourseProgress_def db_update_def first_map_filter Let_def chk)
qed

text \<open>
  Claim C2, as amended. Let \<^verbatim>\<open>upsertCourseProgress\<close> pass the ownership check, with
  \<open>existing\<close> the row found for the course and the acting user and \<open>lvi\<close> the
  \<^verbatim>\<open>lastVisitedItemId\<close> it is about to write: the input's if supplied, else the one of
  \<open>existing\<close>, else none. If \<open>lvi\<close> is the id of no stored item the write fails on the
  reference: the call throws \<^verbatim>\<open>SQLITE_CONSTRAINT_FOREIGNKEY\<close> and the store is as it
  was. Otherwise the call returns a row \<open>p\<close> of the table it leaves, and each of
  \<^verbatim>\<open>status\<close>, \<^verbatim>\<open>completionPercent\<close>, \<^verbatim>\<open>totalItems\<close>, \<^verbatim>\<open>completedItems\<close> and
  \<^verbatim>\<open>lastVisitedItemId\<close> of \<open>p\<close> is the input value if supplied, else the value of
  \<open>existing\<close>, else the default (\<^verbatim>\<open>not_started\<close>, 0, 0, 0, absent). \<^verbatim>\<open>meta\<close> follows the
  same rule, except that an input of \<^verbatim>\<open>null\<close> counts as not supplied. \<^verbatim>\<open>startedAt\<close> is
  the one of \<open>existing\<close> when that row has one, and the current time when there is no
  row or its \<^verbatim>\<open>startedAt\<close> is \<^verbatim>\<open>NULL\<close>.
\<close>

theorem upsertCourseProgress_effective_values:
  assumes auth: "requireUser ctx = Inr usr"
    and own: "owned_course (up_courseId input) usr s = Some course"
    and ex: "existing_progress (up_courseId input) usr s = existing"
    and lvi: "lvi = (case up_lastVisitedItemId input of Some v \<Rightarrow> Some v
            | None \<Rightarrow> (case existing of Some r \<Rightarrow> cp_lastVisitedItemId r | None \<Rightarrow> None))"
  shows "(references_item lvi s \<longrightarrow>
          (\<exists>p. fst (upsertCourseProgress input ctx e s) = Inr (R_progress (Some p)) \<and>
           p \<in> set (CourseProgress (snd (upsertCourseProgress input ctx e s))) \<and>
           cp_courseId p = up_courseId input \<and>
           cp_userId p = u_id usr \<and>
           cp_status p =
             (case up_status input of Some v \<Rightarrow> v
              | None \<Rightarrow> (case existing of Some r \<Rightarrow> cp_status r | None \<Rightarrow> P_not_started)) \<and>
           cp_completionPercent p =
             (case up_completionPercent input of Some v \<Rightarrow> v
              | None \<Rightarrow> (case existing of Some r \<Rightarrow> cp_completionPercent r | None \<Rightarrow> 0)) \<and>
           cp_totalItems p =
             (case up_totalItems input of Some v \<Rightarrow> v
              | None \<Rightarrow> (case existing of Some r \<Rightarrow> cp_totalItems r | None \<Rightarrow> 0)) \<and>
           cp_completedItems p =
             (case up_completedItems input of Some v \<Rightarrow> v
              | None \<Rightarrow> (case existing of Some r \<Rightarrow> cp_completedItems r | None \<Rightarrow> 0)) \<and>
           cp_lastVisitedItemId p =
             (case up_lastVisitedItemId input of Some v \<Rightarrow> Some v
              | None \<Rightarrow> (case existing of Some r \<Rightarrow> cp_lastVisitedItemId r | None \<Rightarrow> None)) \<and>
           cp_meta p =
             (if up_meta input \<noteq> None \<and> up_meta input \<noteq> Some JNull then up_meta input
              else (case existing of
                      Some r \<Rightarrow> (if cp_meta r = Some JNull then None else cp_meta r)
                    | None \<Rightarrow> None)) \<and>
           cp_startedAt p =
             (case existing of
                Some r \<Rightarrow> (case cp_startedAt r of Some d \<Rightarrow> Some d | None \<Rightarrow> Some (new_Date e 0))
              | None \<Rightarrow> Some (new_Date e 0)))) \<and>
         (\<not> references_item lvi s \<longrightarrow>
          upsertCourseProgress input ctx e s = (Inl SQLITE_CONSTRAINT_FOREIGNKEY, s))"
    (is "(_ \<longrightarrow> ?A) \<and> (_ \<longrightarrow> ?B)")
proof -
  have eff: "stored (pv_lastVisitedItemId (upsertCourseProgress_baseValues input usr existing e))
               = lvi"
    by (simp add: lvi baseValues_lastVisitedItemId(1))
  have rejected: ?B if no: "\<not> references_item lvi s"
  proof (cases existing)
    case None
    with upsertCourseProgress_insert [OF auth own, of e] ex eff no show ?thesis
      by (simp add: Let_def)
  next
    case (Some x)
    with upsertCourseProgress_update [OF auth own, of x e] ex eff no show ?thesis
      by simp
  qed
  have written: ?A if fk: "references_item lvi s"
  proof (cases existing)
    case None
    let ?p = "CourseProgress_values (upsertCourseProgress_baseValues input usr None e) (NOW e)
                (next_id (map cp_id (CourseProgress s)))"
    from upsertCourseProgress_insert [OF auth own, of e] ex None eff fk
    have run: "upsertCourseProgress input ctx e s =
       (Inr (R_progress (Some ?p)),
        s\<lparr>CourseProgress := CourseProgress s @ [?p],
          journal := journal s @ [INSERT T_CourseProgress]\<rparr>)"
      by (simp add: Let_def)
    have ret: "fst (upsertCourseProgress input ctx e s) = Inr (R_progress (Some ?p))"
      by (simp add: run)
    have mem: "?p \<in> set (CourseProgress (snd (upsertCourseProgress input ctx e s)))"
      by (simp add: run)
    have fields: "cp_courseId ?p = up_courseId input \<and>
           cp_userId ?p = u_id usr \<and>
           cp_status ?p =
             (case up_status input of Some v \<Rightarrow> v
              | None \<Rightarrow> (case existing of Some r \<Rightarrow> cp_status r | None \<Rightarrow> P_not_started)) \<and>
           cp_completionPercent ?p =
             (case up_completionPercent input of Some v \<Rightarrow> v
              | None \<Rightarrow> (case existing of Some r \<Rightarrow> cp_completionPercent r | None \<Rightarrow> 0)) \<and>
           cp_totalItems ?p =
             (case up_totalItems input of Some v \<Rightarrow> v
              | None \<Rightarrow> (case existing of Some r \<Rightarrow> cp_totalItems r | None \<Rightarrow> 0)) \<and>
           cp_completedItems ?p =
             (case up_completedItems input of Some v \<Rightarrow> v
              | None \<Rightarrow> (case existing of Some r \<Rightarrow> cp_completedItems r | None \<Rightarrow> 0)) \<and>
           cp_lastVisitedItemId ?p =
             (case up_lastVisitedItemId input of Some v \<Rightarrow> Some v
              | None \<Rightarrow> (case existing of Some r \<Rightarrow> cp_lastVisitedItemId r | None \<Rightarrow> None)) \<and>
           cp_meta ?p =
             (if up_meta input \<noteq> None \<and> up_meta input \<noteq> Some JNull then up_meta input
              else (case existing of
                      Some r \<Rightarrow> (if cp_meta r = Some JNull then None else cp_meta r)
                    | None \<Rightarrow> None)) \<and>
           cp_startedAt ?p =
             (case existing of
                Some r \<Rightarrow> (case cp_startedAt r of Some d \<Rightarrow> Some d | None \<Rightarrow> Some (new_Date e 0))
              | None \<Rightarrow> Some (new_Date e 0))"
      by (simp add: None CourseProgress_values_def baseValues_fields
            baseValues_lastVisitedItemId(1) baseValues_meta(1) split: option.splits)
    from ret mem fields show ?thesis by blast
  next
    case (Some x)
    let ?bv = "upsertCourseProgress_baseValues input usr (Some x) e"
    from ex Some have fx: "existing_progress (up_courseId input) usr s = Some x" by simp
    then have "x \<in> set (CourseProgress s)"
      by (simp add: existing_progress_find find_Some_mem)
    then obtain r0 where r0: "List.find (\<lambda>p. cp_id p = cp_id x) (CourseProgress s) = Some r0"
      using find_exists [of x "CourseProgress s" "\<lambda>p. cp_id p = cp_id x"] by auto
    then have r0m: "r0 \<in> set (CourseProgress s)" "cp_id r0 = cp_id x"
      using find_Some_mem [OF r0] by simp_all
    let ?p = "CourseProgress_set ?bv r0"
    from upsertCourseProgress_update [OF auth own fx, of e] r0 eff fk Some
    have run: "upsertCourseProgress input ctx e s =
       (Inr (R_progress (Some ?p)),
        s\<lparr>CourseProgress :=
             map (\<lambda>r. if cp_id r = cp_id x then CourseProgress_set ?bv r else r) (CourseProgress s),
          journal := journal s @ [UPDATE T_CourseProgress]\<rparr>)"
      by simp
    have ret: "fst (upsertCourseProgress input ctx e s) = Inr (R_progress (Some ?p))"
      by (simp add: run)
    have rows: "CourseProgress (snd (upsertCourseProgress input ctx e s)) =
        map (\<lambda>r. if cp_id r = cp_id x then CourseProgress_set ?bv r else r) (CourseProgress s)"
      by (simp add: run)
    have "?p \<in> set (map (\<lambda>r. if cp_id r = cp_id x then CourseProgress_set ?bv r else r)
                            (CourseProgress s))"
      using r0m by (auto simp: image_iff intro!: bexI [of _ r0])
    then have mem: "?p \<in> set (CourseProgress (snd (upsertCourseProgress input ctx e s)))"
      by (simp only: rows)
    have fields: "cp_courseId ?p = up_courseId input \<and>
           cp_userId ?p = u_id usr \<and>
           cp_status ?p =
             (case up_status input of Some v \<Rightarrow> v
              | None \<Rightarrow> (case existing of Some r \<Rightarrow> cp_status r | None \<Rightarrow> P_not_started)) \<and>
           cp_completionPercent ?p =
             (case up_completionPercent input of Some v \<Rightarrow> v
              | None \<Rightarrow> (case existing of Some r \<Rightarrow> cp_completionPercent r | None \<Rightarrow> 0)) \<and>
           cp_totalItems ?p =
             (case up_totalItems input of Some v \<Rightarrow> v
              | None \<Rightarrow> (case existing of Some r \<Rightarrow> cp_totalItems r | None \<Rightarrow> 0)) \<and>
           cp_completedItems ?p =
             (case up_completedItems input of Some v \<Rightarrow> v
              | None \<Rightarrow> (case existing of Some r \<Rightarrow> cp_completedItems r | None \<Rightarrow> 0)) \<and>
           cp_lastVisitedItemId ?p =
             (case up_lastVisitedItemId input of Some v \<Rightarrow> Some v
              | None \<Rightarrow> (case existing of Some r \<Rightarrow> cp_lastVisitedItemId r | None \<Rightarrow> None)) \<and>
           cp_meta ?p =
             (if up_meta input \<noteq> None \<and> up_meta input \<noteq> Some JNull then up_meta input
              else (case existing of
                      Some r \<Rightarrow> (if cp_meta r = Some JNull then None else cp_meta r)
                    | None \<Rightarrow> None)) \<and>
           cp_startedAt ?p =
             (case existing of
                Some r \<Rightarrow> (case cp_startedAt r of Some d \<Rightarrow> Some d | None \<Rightarrow> Some (new_Date e 0))
              | None \<Rightarrow> Some (new_Date e 0))"
      by (simp add: Some CourseProgress_set_def baseValues_fields baseValues_lastVisitedItemId
            baseValues_meta split: option.splits)
    from ret mem fields show ?thesis by blast
  qed
  show ?thesis
  proof (intro conjI impI)
    assume "references_item lvi s"
    then show ?A by (rule written)
  next
    assume "\<not> references_item lvi s"
    then show ?B by (rule rejected)
  qed
qed

theorem upsertCourseProgress_effective_values_witness:
  "requireUser (ctx_of alice) = Inr alice \<and>
   owned_course (up_courseId only_status) alice store1 = Some course1 \<and>
   existing_progress (up_courseId only_status) alice store1 = Some progress1 \<and>
   references_item (Some 1) store1 \<and>
   (\<exists>p. fst (upsertCourseProgress only_status (ctx_of alice) env0 store1) = Inr (R_progress (Some p)) \<and>
        cp_status p = P_completed \<and> cp_completionPercent p = 40 \<and> cp_totalItems p = 10 \<and>
        cp_completedItems p = 4 \<and> cp_lastVisitedItemId p = Some 1 \<and>
        cp_meta p = Some (JStr ''m'') \<and> cp_startedAt p = Some 1000) \<and>
   \<not> references_item (Some 999) store1 \<and>
   upsertCourseProgress visit_missing (ctx_of alice) env0 store1
     = (Inl SQLITE_CONSTRAINT_FOREIGNKEY, store1)"
proof -
  have h1: "requireUser (ctx_of alice) = Inr alice"
    by (simp add: requireUser_def locals_user_def ctx_of_def)
  have h2: "owned_course (up_courseId only_status) alice store1 = Some course1"
           "owned_course (up_courseId visit_missing) alice store1 = Some course1"
    by (simp_all add: only_status_def visit_missing_def eval_defs fixtures)
  have h3: "existing_progress (up_courseId only_status) alice store1 = Some progress1"
           "existing_progress (up_courseId visit_missing) alice store1 = Some progress1"
    by (simp_all add: only_status_def visit_missing_def existing_progress_def eval_defs fixtures)
  have h4: "references_item (Some 1) store1" "\<not> references_item (Some 999) store1"
    by (simp_all add: references_item_def fixtures)
  from upsertCourseProgress_effective_values [OF h1 h2(1) h3(1) refl, of env0] h4(1)
  obtain p where "fst (upsertCourseProgress only_status (ctx_of alice) env0 store1) = Inr (R_progress (Some p))"
     "cp_status p = P_completed" "cp_completionPercent p = 40" "cp_totalItems p = 10"
     "cp_completedItems p = 4" "cp_lastVisitedItemId p = Some 1"
        "cp_meta p = Some (JStr ''m'')" "cp_startedAt p = Some 1000"
    by (auto simp: only_status_def progress1_def env0_def)
  moreover
  from upsertCourseProgress_effective_values [OF h1 h2(2) h3(2) refl, of env0] h4(2)
  have "upsertCourseProgress visit_missing (ctx_of alice) env0 store1
          = (Inl SQLITE_CONSTRAINT_FOREIGNKEY, store1)"
    by (simp add: visit_missing_def)
  ultimately show ?thesis using h1 h2(1) h3(1) h4 by blast
qed

text \<open>
  Claim C2 as stated takes the input value whenever it is supplied, and keeps the
  \<^verbatim>\<open>startedAt\<close> of an existing row. Alice's progress row for course 2 has \<^verbatim>\<open>meta\<close>
  \<^verbatim>\<open>"k"\<close>: a call that supplies \<^verbatim>\<open>meta: null\<close> leaves \<^verbatim>\<open>meta\<close> at \<^verbatim>\<open>"k"\<close>. Her row
  for course 1 has no \<^verbatim>\<open>startedAt\<close>: a call on it sets \<^verbatim>\<open>startedAt\<close> to the current
  time. And no item has id 999: a call that supplies it as \<^verbatim>\<open>lastVisitedItemId\<close> throws
  and writes no row.
\<close>

theorem upsertCourseProgress_null_meta_counterexample:
  "existing_progress (up_courseId null_meta) alice store1 = Some progress2 \<and>
   up_meta null_meta = Some JNull \<and> cp_meta progress2 = Some (JStr ''k'') \<and>
   fst (upsertCourseProgress null_meta (ctx_of alice) env0 store1) =
     Inr (R_progress (Some (progress2\<lparr>cp_updatedAt := 1000\<rparr>))) \<and>
   existing_progress (up_courseId only_status) alice store1 = Some progress1 \<and>
   cp_startedAt progress1 = None \<and>
   fst (upsertCourseProgress only_status (ctx_of alice) env0 store1) =
     Inr (R_progress (Some (progress1\<lparr>cp_status := P_completed, cp_startedAt := Some 1000,
                                       cp_updatedAt := 1001\<rparr>))) \<and>
   owned_course (up_courseId visit_missing) alice store1 = Some course1 \<and>
   up_lastVisitedItemId visit_missing = Some 999 \<and>
   upsertCourseProgress visit_missing (ctx_of alice) env0 store1
     = (Inl SQLITE_CONSTRAINT_FOREIGNKEY, store1)"
  by (simp add: null_meta_def only_status_def visit_missing_def upsert_eval eval_defs fixtures)





lemma find_key_unique:
  "distinct (map key rows) \<Longrightarrow> r \<in> set rows \<Longrightarrow> List.find (\<lambda>x. key x = key r) rows = Some r"
  by (induction rows) (auto simp: image_iff)






lemma map_update_key_only:
  assumes "distinct (map key rows)" and "x \<in> set rows"
  shows "map (\<lambda>r. if key r = key x then f r else r) rows = map (\<lambda>r. if r = x then f x else r) rows"
proof (rule map_cong [OF refl])
  fix r assume "r \<in> set rows"
  with assms have "key r = key x \<longleftrightarrow> r = x"
    by (auto simp: distinct_map dest: inj_onD)
  then show "(if key r = key x then f r else r) = (if r = x then f x else r)" by auto
qed






section \<open>saveCourseItem\<close>

lemma pk_ok_distinct: "pk_ok ids \<Longrightarrow> distinct ids"
  by (simp add: pk_ok_def)

lemma pk_ok_nonzero: "pk_ok ids \<Longrightarrow> i \<in> set ids \<Longrightarrow> i \<noteq> 0"
  by (auto simp: pk_ok_def list_all_iff)

lemma saveCourseItem_insert:
  assumes "requireUser ctx = Inr usr" and "owned_course (si_courseId input) usr s = Some course"
    and "truthy_id (si_id input) = None"
  shows "saveCourseItem input ctx e s =
     (let it = CourseItems_values (saveCourseItem_baseValues input e)
                 (next_id (map ci_id (CourseItems s)))
      in (Inr (R_item (Some it)),
          s\<lparr>CourseItems := CourseItems s @ [it], journal := journal s @ [INSERT T_CourseItems]\<rparr>))"
  using assms by (simp add: saveCourseItem_def db_insert_def first_def Let_def)

lemma saveCourseItem_mismatch:
  assumes "requireUser ctx = Inr usr" and "owned_course (si_courseId input) usr s = Some course"
    and "truthy_id (si_id input) = Some iid"
    and "List.find (\<lambda>i. ci_id i = iid) (CourseItems s) = Some existing"
    and "ci_courseId existing \<noteq> si_courseId input"
  shows "saveCourseItem input ctx e s = (Inl NOT_FOUND, s)"
  using assms by (simp add: saveCourseItem_def first_select_limit1 Let_def)

lemma saveCourseItem_update:
  assumes "requireUser ctx = Inr usr" and "owned_course (si_courseId input) usr s = Some course"
    and "truthy_id (si_id input) = Some iid"
    and "List.find (\<lambda>i. ci_id i = iid) (CourseItems s) = Some existing"
    and "ci_courseId existing = si_courseId input"
  shows "saveCourseItem input ctx e s =
     (Inr (R_item (Some (CourseItems_set (saveCourseItem_baseValues input e) existing))),
      s\<lparr>CourseItems :=
          map (\<lambda>r. if ci_id r = iid then CourseItems_set (saveCourseItem_baseValues input e) r else r)
            (CourseItems s),
        journal := journal s @ [UPDATE T_CourseItems]\<rparr>)"
  using assms
  by (simp add: saveCourseItem_def first_select_limit1 db_update_def first_map_filter Let_def)

text \<open>The ways \<^verbatim>\<open>saveCourseItem\<close> leaves the table of items.\<close>

lemma saveCourseItem_store:
  "CourseItems (snd (saveCourseItem input ctx e s)) = CourseItems s \<or>
   (\<exists>it. CourseItems (snd (saveCourseItem input ctx e s)) = CourseItems s @ [it]) \<or>
   (\<exists>iid existing.
      List.find (\<lambda>i. ci_id i = iid) (CourseItems s) = Some existing \<and>
      ci_courseId existing = si_courseId input \<and>
      CourseItems (snd (saveCourseItem input ctx e s)) =
        map (\<lambda>r. if ci_id r = iid then CourseItems_set (saveCourseItem_baseValues input e) r else r)
          (CourseItems s))"
  by (auto simp: saveCourseItem_def first_select_limit1 db_update_def db_insert_def Let_def
        split: sum.splits option.splits)

lemma saveCourseItem_keeps_parent:
  assumes pk: "distinct (map ci_id (CourseItems s))"
  shows "take (length (CourseItems s))
           (map (\<lambda>r. (ci_id r, ci_courseId r)) (CourseItems (snd (saveCourseItem input ctx e s))))
         = map (\<lambda>r. (ci_id r, ci_courseId r)) (CourseItems s)"
proof -
  let ?g = "\<lambda>r. (ci_id r, ci_courseId r)"
  let ?rows' = "CourseItems (snd (saveCourseItem input ctx e s))"
  from saveCourseItem_store [of input ctx e s]
  consider "?rows' = CourseItems s"
    | it where "?rows' = CourseItems s @ [it]"
    | iid existing where "List.find (\<lambda>i. ci_id i = iid) (CourseItems s) = Some existing"
        "ci_courseId existing = si_courseId input"
        "?rows' = map (\<lambda>r. if ci_id r = iid
                            then CourseItems_set (saveCourseItem_baseValues input e) r else r)
                    (CourseItems s)"
    by blast
  then show ?thesis
  proof cases
    case 1
    then show ?thesis by simp
  next
    case 2
    then show ?thesis by simp
  next
    case 3
    let ?f = "CourseItems_set (saveCourseItem_baseValues input e)"
    from find_Some_mem [OF 3(1)] have mem: "existing \<in> set (CourseItems s)"
      and k: "ci_id existing = iid" by simp_all
    from map_update_key_only [OF pk mem, of ?f] k 3(3)
    have rows: "?rows' = map (\<lambda>r. if r = existing then ?f existing else r) (CourseItems s)"
      by simp
    have "?g (?f existing) = ?g existing"
      using 3(2) by (simp add: CourseItems_set_def saveCourseItem_baseValues_def)
    then have "map ?g (map (\<lambda>r. if r = existing then ?f existing else r) (CourseItems s))
                 = map ?g (CourseItems s)"
      by (induction "CourseItems s") auto
    with rows show ?thesis by simp
  qed
qed

text \<open>
  Claim C6. On a course the acting user owns: without an \<^verbatim>\<open>id\<close>, \<^verbatim>\<open>saveCourseItem\<close>
  appends one row to \<^verbatim>\<open>CourseItems\<close>, under a key no row had, and returns it. With
  the \<^verbatim>\<open>id\<close> of a stored item whose \<^verbatim>\<open>courseId\<close> is not the input's, it raises
  \<open>NOT_FOUND\<close> and leaves the store as it was. And no call changes the \<^verbatim>\<open>courseId\<close> of
  a stored item: position by position, the stored items keep their \<^verbatim>\<open>id\<close> and
  \<^verbatim>\<open>courseId\<close>. The last two parts are for a table whose \<^verbatim>\<open>id\<close> is its primary key,
  with keys from 1.
\<close>

theorem saveCourseItem_insert_or_NOT_FOUND:
  assumes auth: "requireUser ctx = Inr usr"
    and own: "owned_course (si_courseId input) usr s = Some course"
  shows "(si_id input = None \<longrightarrow>
            (\<exists>it. saveCourseItem input ctx e s =
                    (Inr (R_item (Some it)),
                     s\<lparr>CourseItems := CourseItems s @ [it],
                       journal := journal s @ [INSERT T_CourseItems]\<rparr>) \<and>
                  ci_id it \<notin> set (map ci_id (CourseItems s)) \<and>
                  ci_courseId it = si_courseId input)) \<and>
         (pk_ok (map ci_id (CourseItems s)) \<longrightarrow>
            (\<forall>x \<in> set (CourseItems s).
               si_id input = Some (ci_id x) \<and> ci_courseId x \<noteq> si_courseId input \<longrightarrow>
               saveCourseItem input ctx e s = (Inl NOT_FOUND, s))) \<and>
         (pk_ok (map ci_id (CourseItems s)) \<longrightarrow>
            take (length (CourseItems s))
              (map (\<lambda>r. (ci_id r, ci_courseId r))
                 (CourseItems (snd (saveCourseItem input ctx e s))))
            = map (\<lambda>r. (ci_id r, ci_courseId r)) (CourseItems s))"
proof (intro conjI impI ballI)
  assume none: "si_id input = None"
  let ?k = "next_id (map ci_id (CourseItems s))"
  let ?it = "CourseItems_values (saveCourseItem_baseValues input e) ?k"
  from none have "truthy_id (si_id input) = None" by (simp add: truthy_id_def)
  from saveCourseItem_insert [OF auth own this, of e]
  have run: "saveCourseItem input ctx e s =
      (Inr (R_item (Some ?it)),
       s\<lparr>CourseItems := CourseItems s @ [?it], journal := journal s @ [INSERT T_CourseItems]\<rparr>)"
    by (simp add: Let_def)
  have "ci_id ?it = ?k" by (simp add: CourseItems_values_def)
  moreover have "?k \<notin> set (map ci_id (CourseItems s))"
    using next_id_gt [of ?k "map ci_id (CourseItems s)"] by auto
  ultimately have fresh: "ci_id ?it \<notin> set (map ci_id (CourseItems s))" by simp
  have parent: "ci_courseId ?it = si_courseId input"
    by (simp add: CourseItems_values_def saveCourseItem_baseValues_def)
  from run fresh parent
  show "\<exists>it. saveCourseItem input ctx e s =
                    (Inr (R_item (Some it)),
                     s\<lparr>CourseItems := CourseItems s @ [it],
                       journal := journal s @ [INSERT T_CourseItems]\<rparr>) \<and>
                  ci_id it \<notin> set (map ci_id (CourseItems s)) \<and>
                  ci_courseId it = si_courseId input"
    by (intro exI [of _ ?it] conjI)
next
  fix x
  assume pk: "pk_ok (map ci_id (CourseItems s))" and mem: "x \<in> set (CourseItems s)"
    and h: "si_id input = Some (ci_id x) \<and> ci_courseId x \<noteq> si_courseId input"
  from mem have "ci_id x \<in> set (map ci_id (CourseItems s))" by simp
  with pk have "ci_id x \<noteq> 0" by (rule pk_ok_nonzero)
  with h have t: "truthy_id (si_id input) = Some (ci_id x)" by (simp add: truthy_id_def)
  from find_key_unique [OF pk_ok_distinct [OF pk] mem]
  have f: "List.find (\<lambda>i. ci_id i = ci_id x) (CourseItems s) = Some x" .
  from h have "ci_courseId x \<noteq> si_courseId input" by simp
  from saveCourseItem_mismatch [OF auth own t f this]
  show "saveCourseItem input ctx e s = (Inl NOT_FOUND, s)" .
next
  assume pk: "pk_ok (map ci_id (CourseItems s))"
  from saveCourseItem_keeps_parent [OF pk_ok_distinct [OF pk]]
  show "take (length (CourseItems s))
              (map (\<lambda>r. (ci_id r, ci_courseId r))
                 (CourseItems (snd (saveCourseItem input ctx e s))))
            = map (\<lambda>r. (ci_id r, ci_courseId r)) (CourseItems s)" .
qed

lemmas save_eval = saveCourseItem_def saveCourseItem_baseValues_def CourseItems_set_def
  CourseItems_values_def truthy_id_def of_input_def assign_def stored_def pk_ok_def

theorem saveCourseItem_insert_or_NOT_FOUND_witness:
  "requireUser (ctx_of alice) = Inr alice \<and>
   owned_course 1 alice store1 = Some course1 \<and>
   pk_ok (map ci_id (CourseItems store1)) \<and>
   item2 \<in> set (CourseItems store1) \<and> si_id move_item = Some (ci_id item2) \<and>
   ci_courseId item2 \<noteq> si_courseId move_item \<and>
   saveCourseItem move_item (ctx_of alice) env0 store1 = (Inl NOT_FOUND, store1) \<and>
   (\<exists>it. saveCourseItem new_lesson (ctx_of alice) env0 store1 =
            (Inr (R_item (Some it)),
             store1\<lparr>CourseItems := CourseItems store1 @ [it],
                    journal := journal store1 @ [INSERT T_CourseItems]\<rparr>) \<and>
          ci_id it \<notin> set (map ci_id (CourseItems store1)) \<and>
          ci_courseId it = si_courseId new_lesson)"
proof -
  have h1: "requireUser (ctx_of alice) = Inr alice"
    by (simp add: requireUser_def locals_user_def ctx_of_def)
  have h2: "owned_course (si_courseId move_item) alice store1 = Some course1"
           "owned_course (si_courseId new_lesson) alice store1 = Some course1"
    by (simp_all add: move_item_def new_lesson_def eval_defs fixtures)
  have h3: "pk_ok (map ci_id (CourseItems store1))" by (simp add: pk_ok_def fixtures)
  have h4: "item2 \<in> set (CourseItems store1)" by (simp add: store1_def)
  have h5: "si_id move_item = Some (ci_id item2) \<and> ci_courseId item2 \<noteq> si_courseId move_item"
    by (simp add: move_item_def item2_def)
  have h6: "si_id new_lesson = None" by (simp add: new_lesson_def)
  have o: "owned_course 1 alice store1 = Some course1" by (simp add: eval_defs fixtures)
  from saveCourseItem_insert_or_NOT_FOUND [OF h1 h2(1), of env0] h3 h4 h5
  have a: "saveCourseItem move_item (ctx_of alice) env0 store1 = (Inl NOT_FOUND, store1)"
    by blast
  from saveCourseItem_insert_or_NOT_FOUND [OF h1 h2(2), of env0] h6
  have b: "\<exists>it. saveCourseItem new_lesson (ctx_of alice) env0 store1 =
            (Inr (R_item (Some it)),
             store1\<lparr>CourseItems := CourseItems store1 @ [it],
                    journal := journal store1 @ [INSERT T_CourseItems]\<rparr>) \<and>
          ci_id it \<notin> set (map ci_id (CourseItems store1)) \<and>
          ci_courseId it = si_courseId new_lesson"
    by blast
  from h1 o h3 h4 h5 a b show ?thesis by (intro conjI) simp_all
qed

text \<open>What the update branch writes: the row with the given id alone changes.
  \<^verbatim>\<open>courseId\<close>, \<^verbatim>\<open>type\<close>, \<^verbatim>\<open>title\<close>, \<^verbatim>\<open>position\<close>, \<^verbatim>\<open>isRequired\<close> and \<^verbatim>\<open>createdAt\<close>
  are computed afresh; the keys of \<^verbatim>\<open>description\<close>, \<^verbatim>\<open>dueDate\<close> and
  \<^verbatim>\<open>estimatedMinutes\<close> are \<^verbatim>\<open>undefined\<close> in \<^verbatim>\<open>baseValues\<close> when the input omits them,
  and \<^verbatim>\<open>set\<close> skips them.\<close>

lemma saveCourseItem_update_row:
  assumes auth: "requireUser ctx = Inr usr"
    and own: "owned_course (si_courseId input) usr s = Some course"
    and pk: "pk_ok (map ci_id (CourseItems s))"
    and mem: "x \<in> set (CourseItems s)"
    and id: "si_id input = Some (ci_id x)"
    and parent: "ci_courseId x = si_courseId input"
    and x': "x' = x\<lparr>ci_type := (case si_type input of None \<Rightarrow> Lesson | Some t \<Rightarrow> t),
                    ci_title := si_title input,
                    ci_description :=
                      (case si_description input of None \<Rightarrow> ci_description x | Some d \<Rightarrow> Some d),
                    ci_position := (case si_position input of None \<Rightarrow> 0 | Some p \<Rightarrow> p),
                    ci_dueDate :=
                      (case si_dueDate input of None \<Rightarrow> ci_dueDate x | Some d \<Rightarrow> Some d),
                    ci_estimatedMinutes :=
                      (case si_estimatedMinutes input of
                         None \<Rightarrow> ci_estimatedMinutes x | Some m \<Rightarrow> Some m),
                    ci_isRequired := (case si_isRequired input of None \<Rightarrow> True | Some b \<Rightarrow> b),
                    ci_createdAt := new_Date e 0\<rparr>"
  shows "saveCourseItem input ctx e s =
           (Inr (R_item (Some x')),
            s\<lparr>CourseItems := map (\<lambda>r. if r = x then x' else r) (CourseItems s),
              journal := journal s @ [UPDATE T_CourseItems]\<rparr>)"
proof -
  let ?f = "CourseItems_set (saveCourseItem_baseValues input e)"
  from mem have "ci_id x \<in> set (map ci_id (CourseItems s))" by simp
  with pk have "ci_id x \<noteq> 0" by (rule pk_ok_nonzero)
  with id have t: "truthy_id (si_id input) = Some (ci_id x)" by (simp add: truthy_id_def)
  from find_key_unique [OF pk_ok_distinct [OF pk] mem]
  have f: "List.find (\<lambda>i. ci_id i = ci_id x) (CourseItems s) = Some x" .
  have fx: "?f x = x'"
    using parent
    by (simp add: x' CourseItems_set_def saveCourseItem_baseValues_def assign_def of_input_def
          split: option.splits)
  from map_update_key_only [OF pk_ok_distinct [OF pk] mem, of ?f]
  have rows: "map (\<lambda>r. if ci_id r = ci_id x then ?f r else r) (CourseItems s)
                = map (\<lambda>r. if r = x then x' else r) (CourseItems s)"
    by (simp only: fx)
  from saveCourseItem_update [OF auth own t f parent, of e]
  show ?thesis by (simp only: rows fx)
qed

text \<open>
  Claim C9. With an \<^verbatim>\<open>id\<close> that matches a stored item of the given course, the update
  of \<^verbatim>\<open>saveCourseItem\<close> overwrites every column of the row with freshly computed
  values: \<^verbatim>\<open>createdAt\<close> is reset to the current time and every omitted optional field
  reverts to its default (\<^verbatim>\<open>type\<close> \<^verbatim>\<open>lesson\<close>, \<^verbatim>\<open>position\<close> 0, \<^verbatim>\<open>isRequired\<close> true,
  \<^verbatim>\<open>description\<close>, \<^verbatim>\<open>dueDate\<close> and \<^verbatim>\<open>estimatedMinutes\<close> cleared). The handler builds
  \<^verbatim>\<open>baseValues\<close> from the input alone and gives it whole to \<^verbatim>\<open>set\<close>, and the code
  misses the claim on the last three columns. Item 1 of course 1 has a description, a
  due date and an estimate. The call with only its id, the course and a title resets
  \<^verbatim>\<open>type\<close>, \<^verbatim>\<open>position\<close>, \<^verbatim>\<open>isRequired\<close> and \<^verbatim>\<open>createdAt\<close> but returns the three as
  stored; the same input without the id takes the insert branch, which stores none of
  the three.
\<close>

theorem saveCourseItem_update_keeps_omitted:
  "si_description rename_item = None \<and> si_dueDate rename_item = None \<and>
   si_estimatedMinutes rename_item = None \<and>
   fst (saveCourseItem rename_item (ctx_of alice) env0 store1) =
     Inr (R_item (Some
       \<lparr>ci_id = 1, ci_courseId = 1, ci_type = Lesson, ci_title = ''Renamed'',
        ci_description = Some ''Pointers'', ci_position = 0, ci_dueDate = Some 500,
        ci_estimatedMinutes = Some 30, ci_isRequired = True, ci_createdAt = 1000\<rparr>)) \<and>
   fst (saveCourseItem (rename_item\<lparr>si_id := None\<rparr>) (ctx_of alice) env0 store1) =
     Inr (R_item (Some
       \<lparr>ci_id = 3, ci_courseId = 1, ci_type = Lesson, ci_title = ''Renamed'',
        ci_description = None, ci_position = 0, ci_dueDate = None,
        ci_estimatedMinutes = None, ci_isRequired = True, ci_createdAt = 1000\<rparr>))"
  by (simp add: rename_item_def save_eval eval_defs fixtures Let_def)

section \<open>The storage invariants hold in every store the handlers build\<close>

lemma pk_ok_append_next: "pk_ok ids \<Longrightarrow> pk_ok (ids @ [next_id ids])"
  using next_id_gt [of "next_id ids" ids] next_id_pos [of ids]
  by (auto simp: pk_ok_def)

lemma pk_ok_filter: "pk_ok (map key rows) \<Longrightarrow> pk_ok (map key (filter p rows))"
  by (auto simp: pk_ok_def distinct_map_filter list_all_iff)

lemma map_update_one:
  assumes "distinct (map key rows)" and "ex \<in> set rows" and "g (f ex) = g ex"
  shows "map g (map (\<lambda>r. if key r = key ex then f r else r) rows) = map g rows"
proof -
  have "map g (map (\<lambda>r. if r = ex then f ex else r) rows) = map g rows"
    using assms(3) by (induction rows) auto
  with map_update_key_only [OF assms(1,2), of f] show ?thesis by simp
qed

lemma find_None_pairs:
  assumes "List.find (\<lambda>r. g r = k) rows = None"
  shows "k \<notin> set (map g rows)"
  using assms by (auto simp: find_None_iff)

lemma keys_ok_empty: "keys_ok empty_store"
  by (simp add: keys_ok_def empty_store_def pk_ok_def)

lemma createCourse_keys: "keys_ok s \<Longrightarrow> keys_ok (snd (createCourse input ctx e s))"
  by (auto simp: createCourse_def db_insert_def Let_def keys_ok_def pk_ok_append_next
        split: sum.splits)

lemma updateCourse_keys:
  assumes "keys_ok s"
  shows "keys_ok (snd (updateCourse input ctx e s))"
proof -
  obtain out s' where run: "updateCourse input ctx e s = (out, s')"
    by (cases "updateCourse input ctx e s")
  from updateCourse_tables_frame [OF run, of c_id]
  have "map c_id (Courses s') = map c_id (Courses s)" by (simp add: Courses_set_frame)
  with updateCourse_other_tables [OF run] assms show ?thesis
    by (simp add: run keys_ok_def)
qed

lemma listMyCourses_keys: "keys_ok s \<Longrightarrow> keys_ok (snd (listMyCourses input ctx e s))"
  by (auto simp: listMyCourses_def Let_def split: sum.splits)

lemma getCourseWithItems_keys: "keys_ok s \<Longrightarrow> keys_ok (snd (getCourseWithItems input ctx e s))"
  by (auto simp: getCourseWithItems_def Let_def split: sum.splits option.splits)

lemma CourseItems_set_id: "ci_id (if c then CourseItems_set v r else r) = ci_id r"
  by (simp add: CourseItems_set_def)

lemma saveCourseItem_keys: "keys_ok s \<Longrightarrow> keys_ok (snd (saveCourseItem input ctx e s))"
  by (auto simp: saveCourseItem_def db_update_def db_insert_def Let_def keys_ok_def
        CourseItems_values_def pk_ok_append_next [of "map ci_id (CourseItems s)"]
        CourseItems_set_id o_def
        split: sum.splits option.splits)

lemma deleteCourseItem_keys: "keys_ok s \<Longrightarrow> keys_ok (snd (deleteCourseItem input ctx e s))"
  by (auto simp: deleteCourseItem_def db_delete_def Let_def keys_ok_def pk_ok_filter
        split: sum.splits option.splits if_splits)

text \<open>The ways \<^verbatim>\<open>upsertCourseProgress\<close> leaves the store.\<close>

lemma upsertCourseProgress_store:
  "snd (upsertCourseProgress input ctx e s) = s \<or>
   (\<exists>usr. existing_progress (up_courseId input) usr s = None \<and>
          CourseProgress_references
            (CourseProgress_values (upsertCourseProgress_baseValues input usr None e) (NOW e)
               (next_id (map cp_id (CourseProgress s)))) s \<and>
          snd (upsertCourseProgress input ctx e s) =
            s\<lparr>CourseProgress :=
                 CourseProgress s @
                 [CourseProgress_values (upsertCourseProgress_baseValues input usr None e) (NOW e)
                    (next_id (map cp_id (CourseProgress s)))],
              journal := journal s @ [INSERT T_CourseProgress]\<rparr>) \<or>
   (\<exists>usr ex. existing_progress (up_courseId input) usr s = Some ex \<and>
          list_all (\<lambda>r. CourseProgress_references r s)
            (map (CourseProgress_set (upsertCourseProgress_baseValues input usr (Some ex) e))
               (filter (\<lambda>p. cp_id p = cp_id ex) (CourseProgress s))) \<and>
          snd (upsertCourseProgress input ctx e s) =
            s\<lparr>CourseProgress :=
                 map (\<lambda>r. if cp_id r = cp_id ex
                          then CourseProgress_set
                                 (upsertCourseProgress_baseValues input usr (Some ex) e) r
                          else r) (CourseProgress s),
              journal := journal s @ [UPDATE T_CourseProgress]\<rparr>)"
  by (auto simp: upsertCourseProgress_def db_update_def db_insert_def Let_def
        split: sum.splits option.splits if_splits)

lemma upsertCourseProgress_keys:
  assumes ok: "keys_ok s"
  shows "keys_ok (snd (upsertCourseProgress input ctx e s))"
proof -
  let ?g = "\<lambda>p. (cp_courseId p, cp_userId p)"
  let ?s' = "snd (upsertCourseProgress input ctx e s)"
  from ok have pk: "pk_ok (map cp_id (CourseProgress s))"
    and pairs: "distinct (map ?g (CourseProgress s))"
    by (simp_all add: keys_ok_def)
  from upsertCourseProgress_store [of input ctx e s]
  consider "?s' = s"
    | usr where
        "existing_progress (up_courseId input) usr s = None"
        "?s' = s\<lparr>CourseProgress :=
                 CourseProgress s @
                 [CourseProgress_values (upsertCourseProgress_baseValues input usr None e) (NOW e)
                    (next_id (map cp_id (CourseProgress s)))],
              journal := journal s @ [INSERT T_CourseProgress]\<rparr>"
    | usr ex where
        "existing_progress (up_courseId input) usr s = Some ex"
        "?s' = s\<lparr>CourseProgress :=
                 map (\<lambda>r. if cp_id r = cp_id ex
                          then CourseProgress_set
                                 (upsertCourseProgress_baseValues input usr (Some ex) e) r
                          else r) (CourseProgress s),
              journal := journal s @ [UPDATE T_CourseProgress]\<rparr>"
    by blast
  then show ?thesis
  proof cases
    case 1
    with ok show ?thesis by simp
  next
    case 2
    let ?p = "CourseProgress_values (upsertCourseProgress_baseValues input usr None e) (NOW e)
                (next_id (map cp_id (CourseProgress s)))"
    have "map cp_id (CourseProgress s @ [?p]) =
            map cp_id (CourseProgress s) @ [next_id (map cp_id (CourseProgress s))]"
      by (simp add: CourseProgress_values_def)
    with pk_ok_append_next [OF pk] have a: "pk_ok (map cp_id (CourseProgress s @ [?p]))"
      by simp
    from 2(1) have "\<forall>r \<in> set (CourseProgress s).
                      \<not> (cp_courseId r = up_courseId input \<and> cp_userId r = u_id usr)"
      by (simp add: existing_progress_find find_None_iff)
    moreover have "?g ?p = (up_courseId input, u_id usr)"
      by (simp add: CourseProgress_values_def baseValues_fields)
    ultimately have "?g ?p \<notin> set (map ?g (CourseProgress s))" by auto
    with pairs have b: "distinct (map ?g (CourseProgress s @ [?p]))" by simp
    from ok a b show ?thesis by (simp add: 2(2) keys_ok_def)
  next
    case 3
    let ?f = "CourseProgress_set (upsertCourseProgress_baseValues input usr (Some ex) e)"
    let ?rows = "map (\<lambda>r. if cp_id r = cp_id ex then ?f r else r) (CourseProgress s)"
    from 3(1) have fnd: "ex \<in> set (CourseProgress s)"
      and match: "cp_courseId ex = up_courseId input \<and> cp_userId ex = u_id usr"
      using find_Some_mem [of "\<lambda>p. cp_courseId p = up_courseId input \<and> cp_userId p = u_id usr"
              "CourseProgress s" ex]
      by (simp_all add: existing_progress_find)
    have "cp_id (?f r) = cp_id r" for r by (simp add: CourseProgress_set_def)
    then have ids: "map cp_id ?rows = map cp_id (CourseProgress s)"
      by (rule map_update_frame)
    have "?g (?f ex) = ?g ex"
      using match by (simp add: CourseProgress_set_def baseValues_fields)
    from map_update_one [of cp_id "CourseProgress s" ex ?g ?f, OF pk_ok_distinct [OF pk] fnd this]
    have prs: "map ?g ?rows = map ?g (CourseProgress s)" .
    from pk ids have a: "pk_ok (map cp_id ?rows)" by (simp only:)
    from pairs prs have b: "distinct (map ?g ?rows)" by (simp only:)
    from ok a b show ?thesis by (simp add: 3(2) keys_ok_def)
  qed
qed

lemma updateCourseItemProgress_store:
  "snd (updateCourseItemProgress input ctx e s) = s \<or>
   (\<exists>usr. List.find (\<lambda>p. cip_itemId p = ip_itemId input \<and> cip_userId p = u_id usr)
             (CourseItemProgress s) = None \<and>
          snd (updateCourseItemProgress input ctx e s) =
            s\<lparr>CourseItemProgress :=
                 CourseItemProgress s @
                 [CourseItemProgress_values (updateCourseItemProgress_baseValues input usr None)
                    (NOW e) (next_id (map cip_id (CourseItemProgress s)))],
              journal := journal s @ [INSERT T_CourseItemProgress]\<rparr>) \<or>
   (\<exists>usr ex. List.find (\<lambda>p. cip_itemId p = ip_itemId input \<and> cip_userId p = u_id usr)
                (CourseItemProgress s) = Some ex \<and>
          snd (updateCourseItemProgress input ctx e s) =
            s\<lparr>CourseItemProgress :=
                 map (\<lambda>r. if cip_id r = cip_id ex
                          then CourseItemProgress_set
                                 (updateCourseItemProgress_baseValues input usr (Some ex)) r
                          else r) (CourseItemProgress s),
              journal := journal s @ [UPDATE T_CourseItemProgress]\<rparr>)"
  by (auto simp: updateCourseItemProgress_def first_select_limit1 db_update_def db_insert_def
        Let_def split: sum.splits option.splits)

lemma updateCourseItemProgress_keys:
  assumes ok: "keys_ok s"
  shows "keys_ok (snd (updateCourseItemProgress input ctx e s))"
proof -
  let ?g = "\<lambda>p. (cip_itemId p, cip_userId p)"
  let ?s' = "snd (updateCourseItemProgress input ctx e s)"
  from ok have pk: "pk_ok (map cip_id (CourseItemProgress s))"
    and pairs: "distinct (map ?g (CourseItemProgress s))"
    by (simp_all add: keys_ok_def)
  from updateCourseItemProgress_store [of input ctx e s]
  consider "?s' = s"
    | usr where
        "List.find (\<lambda>p. cip_itemId p = ip_itemId input \<and> cip_userId p = u_id usr)
           (CourseItemProgress s) = None"
        "?s' = s\<lparr>CourseItemProgress :=
                 CourseItemProgress s @
                 [CourseItemProgress_values (updateCourseItemProgress_baseValues input usr None)
                    (NOW e) (next_id (map cip_id (CourseItemProgress s)))],
              journal := journal s @ [INSERT T_CourseItemProgress]\<rparr>"
    | usr ex where
        "List.find (\<lambda>p. cip_itemId p = ip_itemId input \<and> cip_userId p = u_id usr)
           (CourseItemProgress s) = Some ex"
        "?s' = s\<lparr>CourseItemProgress :=
                 map (\<lambda>r. if cip_id r = cip_id ex
                          then CourseItemProgress_set
                                 (updateCourseItemProgress_baseValues input usr (Some ex)) r
                          else r) (CourseItemProgress s),
              journal := journal s @ [UPDATE T_CourseItemProgress]\<rparr>"
    by blast
  then show ?thesis
  proof cases
    case 1
    with ok show ?thesis by simp
  next
    case 2
    let ?p = "CourseItemProgress_values (updateCourseItemProgress_baseValues input usr None)
                (NOW e) (next_id (map cip_id (CourseItemProgress s)))"
    have "map cip_id (CourseItemProgress s @ [?p]) =
            map cip_id (CourseItemProgress s) @ [next_id (map cip_id (CourseItemProgress s))]"
      by (simp add: CourseItemProgress_values_def)
    with pk_ok_append_next [OF pk] have a: "pk_ok (map cip_id (CourseItemProgress s @ [?p]))"
      by simp
    from 2(1) have "\<forall>r \<in> set (CourseItemProgress s).
                      \<not> (cip_itemId r = ip_itemId input \<and> cip_userId r = u_id usr)"
      by (simp add: find_None_iff)
    moreover have "?g ?p = (ip_itemId input, u_id usr)"
      by (simp add: CourseItemProgress_values_def updateCourseItemProgress_baseValues_def)
    ultimately have "?g ?p \<notin> set (map ?g (CourseItemProgress s))" by auto
    with pairs have b: "distinct (map ?g (CourseItemProgress s @ [?p]))" by simp
    from ok a b show ?thesis by (simp add: 2(2) keys_ok_def)
  next
    case 3
    let ?f = "CourseItemProgress_set (updateCourseItemProgress_baseValues input usr (Some ex))"
    let ?rows = "map (\<lambda>r. if cip_id r = cip_id ex then ?f r else r) (CourseItemProgress s)"
    from find_Some_mem [OF 3(1)] have fnd: "ex \<in> set (CourseItemProgress s)"
      and match: "cip_itemId ex = ip_itemId input \<and> cip_userId ex = u_id usr"
      by simp_all
    have "cip_id (?f r) = cip_id r" for r by (simp add: CourseItemProgress_set_def)
    then have ids: "map cip_id ?rows = map cip_id (CourseItemProgress s)"
      by (rule map_update_frame)
    have "?g (?f ex) = ?g ex"
      using match
      by (simp add: CourseItemProgress_set_def updateCourseItemProgress_baseValues_def)
    from map_update_one [of cip_id "CourseItemProgress s" ex ?g ?f, OF pk_ok_distinct [OF pk] fnd this]
    have prs: "map ?g ?rows = map ?g (CourseItemProgress s)" .
    from pk ids have a: "pk_ok (map cip_id ?rows)" by (simp only:)
    from pairs prs have b: "distinct (map ?g ?rows)" by (simp only:)
    from ok a b show ?thesis by (simp add: 3(2) keys_ok_def)
  qed
qed

text \<open>The references survive a write that removes no course and no item and whose new
  rows refer to stored rows.\<close>

lemma refs_ok_grow:
  assumes ok: "refs_ok s"
    and courses: "set (map c_id (Courses s)) \<subseteq> set (map c_id (Courses s'))"
    and items: "set (map ci_id (CourseItems s)) \<subseteq> set (map ci_id (CourseItems s'))"
    and new_items: "\<And>x. x \<in> set (CourseItems s') \<Longrightarrow>
                     x \<in> set (CourseItems s) \<or> references_course (ci_courseId x) s'"
    and new_progress: "\<And>p. p \<in> set (CourseProgress s') \<Longrightarrow>
                     p \<in> set (CourseProgress s) \<or> CourseProgress_references p s'"
    and new_item_progress: "\<And>p. p \<in> set (CourseItemProgress s') \<Longrightarrow>
                     p \<in> set (CourseItemProgress s) \<or> references_item (Some (cip_itemId p)) s'"
  shows "refs_ok s'"
proof -
  have c: "references_course cid s \<Longrightarrow> references_course cid s'" for cid
    using courses by (auto simp: references_course_def)
  have i: "references_item v s \<Longrightarrow> references_item v s'" for v
    using items by (cases v) (auto simp: references_item_def)
  have "references_course (ci_courseId x) s'" if "x \<in> set (CourseItems s')" for x
    using new_items [OF that] ok c by (auto simp: refs_ok_def list_all_iff)
  moreover have "CourseProgress_references p s'" if "p \<in> set (CourseProgress s')" for p
    using new_progress [OF that] ok c i
    by (auto simp: refs_ok_def list_all_iff CourseProgress_references_def)
  moreover have "references_item (Some (cip_itemId p)) s'"
    if "p \<in> set (CourseItemProgress s')" for p
    using new_item_progress [OF that] ok i by (auto simp: refs_ok_def list_all_iff)
  ultimately show ?thesis by (simp add: refs_ok_def list_all_iff)
qed

lemma refs_ok_empty: "refs_ok empty_store"
  by (simp add: refs_ok_def empty_store_def)

lemma createCourse_refs: "refs_ok s \<Longrightarrow> refs_ok (snd (createCourse input ctx e s))"
  by (rule refs_ok_grow [of s])
     (auto simp: createCourse_def db_insert_def Let_def split: sum.splits)

lemma updateCourse_refs:
  assumes "refs_ok s"
  shows "refs_ok (snd (updateCourse input ctx e s))"
proof -
  obtain out s' where run: "updateCourse input ctx e s = (out, s')"
    by (cases "updateCourse input ctx e s")
  from updateCourse_tables_frame [OF run, of c_id]
  have "map c_id (Courses s') = map c_id (Courses s)" by (simp add: Courses_set_frame)
  with updateCourse_other_tables [OF run] refs_ok_grow [OF assms, of s'] show ?thesis
    by (simp add: run)
qed

lemma listMyCourses_refs: "refs_ok s \<Longrightarrow> refs_ok (snd (listMyCourses input ctx e s))"
  by (auto simp: listMyCourses_def Let_def split: sum.splits)

lemma getCourseWithItems_refs: "refs_ok s \<Longrightarrow> refs_ok (snd (getCourseWithItems input ctx e s))"
  by (auto simp: getCourseWithItems_def Let_def split: sum.splits option.splits)

text \<open>\<^verbatim>\<open>saveCourseItem\<close> writes an item only under a course it has found.\<close>

lemma saveCourseItem_shape:
  "snd (saveCourseItem input ctx e s) = s \<or>
   references_course (si_courseId input) s \<and>
   (snd (saveCourseItem input ctx e s) =
      s\<lparr>CourseItems :=
           CourseItems s @
           [CourseItems_values (saveCourseItem_baseValues input e)
              (next_id (map ci_id (CourseItems s)))],
        journal := journal s @ [INSERT T_CourseItems]\<rparr> \<or>
    (\<exists>iid. snd (saveCourseItem input ctx e s) =
       s\<lparr>CourseItems :=
            map (\<lambda>r. if ci_id r = iid
                     then CourseItems_set (saveCourseItem_baseValues input e) r else r)
              (CourseItems s),
         journal := journal s @ [UPDATE T_CourseItems]\<rparr>))"
  by (auto simp: saveCourseItem_def db_update_def db_insert_def Let_def owned_course_references
        split: sum.splits option.splits)

lemma saveCourseItem_refs:
  assumes ok: "refs_ok s"
  shows "refs_ok (snd (saveCourseItem input ctx e s))"
proof -
  let ?s' = "snd (saveCourseItem input ctx e s)"
  let ?bv = "saveCourseItem_baseValues input e"
  from saveCourseItem_shape [of input ctx e s]
  consider "?s' = s"
    | "references_course (si_courseId input) s"
      "?s' = s\<lparr>CourseItems :=
                 CourseItems s @ [CourseItems_values ?bv (next_id (map ci_id (CourseItems s)))],
               journal := journal s @ [INSERT T_CourseItems]\<rparr>"
    | iid where "references_course (si_courseId input) s"
      "?s' = s\<lparr>CourseItems :=
                 map (\<lambda>r. if ci_id r = iid then CourseItems_set ?bv r else r) (CourseItems s),
               journal := journal s @ [UPDATE T_CourseItems]\<rparr>"
    by blast
  then show ?thesis
  proof cases
    case 1
    with ok show ?thesis by simp
  next
    case 2
    have "ci_courseId (CourseItems_values ?bv k) = si_courseId input" for k
      by (simp add: CourseItems_values_def saveCourseItem_baseValues_def)
    with 2(1) show ?thesis
      by (intro refs_ok_grow [OF ok]) (auto simp: 2(2) references_course_def)
  next
    case 3
    have cid: "ci_courseId (CourseItems_set ?bv r) = si_courseId input" for r
      by (simp add: CourseItems_set_def saveCourseItem_baseValues_def)
    have "ci_id (CourseItems_set ?bv r) = ci_id r" for r by (simp add: CourseItems_set_def)
    then have ids: "map ci_id (map (\<lambda>r. if ci_id r = iid then CourseItems_set ?bv r else r)
                                 (CourseItems s)) = map ci_id (CourseItems s)"
      by (rule map_update_frame)
    show ?thesis
    proof (rule refs_ok_grow [OF ok])
      show "set (map c_id (Courses s)) \<subseteq> set (map c_id (Courses ?s'))" by (simp add: 3(2))
      show "set (map ci_id (CourseItems s)) \<subseteq> set (map ci_id (CourseItems ?s'))"
        using ids by (simp add: 3(2))
      show "x \<in> set (CourseItems ?s') \<Longrightarrow>
              x \<in> set (CourseItems s) \<or> references_course (ci_courseId x) ?s'" for x
        using 3(1) cid by (auto simp: 3(2) references_course_def)
      show "p \<in> set (CourseProgress ?s') \<Longrightarrow>
              p \<in> set (CourseProgress s) \<or> CourseProgress_references p ?s'" for p
        by (simp add: 3(2))
      show "p \<in> set (CourseItemProgress ?s') \<Longrightarrow>
              p \<in> set (CourseItemProgress s) \<or> references_item (Some (cip_itemId p)) ?s'" for p
        by (simp add: 3(2))
    qed
  qed
qed

text \<open>\<^verbatim>\<open>deleteCourseItem\<close> removes only items that no row refers to.\<close>

lemma deleteCourseItem_shape:
  "snd (deleteCourseItem input ctx e s) = s \<or>
   (\<exists>P. \<not> list_ex (\<lambda>d. item_referenced (ci_id d) s) (filter P (CourseItems s)) \<and>
        snd (deleteCourseItem input ctx e s) =
          s\<lparr>CourseItems := filter (\<lambda>r. \<not> P r) (CourseItems s),
            journal := journal s @ [DELETE T_CourseItems]\<rparr>)"
proof -
  let ?P = "\<lambda>i. ci_id i = di_id input \<and> ci_courseId i = di_courseId input"
  have "snd (deleteCourseItem input ctx e s) = s \<or>
        \<not> list_ex (\<lambda>d. item_referenced (ci_id d) s) (filter ?P (CourseItems s)) \<and>
        snd (deleteCourseItem input ctx e s) =
          s\<lparr>CourseItems := filter (\<lambda>r. \<not> ?P r) (CourseItems s),
            journal := journal s @ [DELETE T_CourseItems]\<rparr>"
    by (simp add: deleteCourseItem_def db_delete_def Let_def
          split: sum.splits option.splits)
  then show ?thesis by blast
qed

lemma deleteCourseItem_refs:
  assumes ok: "refs_ok s"
  shows "refs_ok (snd (deleteCourseItem input ctx e s))"
proof -
  let ?s' = "snd (deleteCourseItem input ctx e s)"
  from deleteCourseItem_shape [of input ctx e s]
  consider "?s' = s"
    | P where "\<not> list_ex (\<lambda>d. item_referenced (ci_id d) s) (filter P (CourseItems s))"
        "?s' = s\<lparr>CourseItems := filter (\<lambda>r. \<not> P r) (CourseItems s),
                 journal := journal s @ [DELETE T_CourseItems]\<rparr>"
    by blast
  then show ?thesis
  proof cases
    case 1
    with ok show ?thesis by simp
  next
    case 2
    from 2(1) have free: "\<not> item_referenced (ci_id d) s" if "d \<in> set (CourseItems s)" "P d" for d
      using that by (auto simp: list_ex_iff)
    have kept: "i \<in> set (map ci_id (filter (\<lambda>r. \<not> P r) (CourseItems s)))"
      if "i \<in> set (map ci_id (CourseItems s))" "item_referenced i s" for i
    proof -
      from that(1) obtain d where d: "d \<in> set (CourseItems s)" "ci_id d = i" by auto
      with free [of d] that(2) have "\<not> P d" by auto
      with d show ?thesis by (auto simp: image_iff)
    qed
    have a: "references_course (ci_courseId x) ?s'" if "x \<in> set (CourseItems ?s')" for x
      using that ok by (auto simp: 2(2) refs_ok_def list_all_iff references_course_def)
    have b: "CourseProgress_references p ?s'" if "p \<in> set (CourseProgress ?s')" for p
    proof -
      from that have mem: "p \<in> set (CourseProgress s)" by (simp add: 2(2))
      with ok have r: "references_course (cp_courseId p) s"
        "references_item (cp_lastVisitedItemId p) s"
        by (auto simp: refs_ok_def list_all_iff CourseProgress_references_def)
      have "references_item (cp_lastVisitedItemId p) ?s'"
      proof (cases "cp_lastVisitedItemId p")
        case None
        then show ?thesis by (simp add: references_item_def)
      next
        case (Some i)
        with mem have "item_referenced i s" by (auto simp: item_referenced_def list_ex_iff)
        moreover from r(2) Some have "i \<in> set (map ci_id (CourseItems s))"
          by (simp add: references_item_def)
        ultimately show ?thesis using kept [of i] Some by (simp add: references_item_def 2(2))
      qed
      with r(1) show ?thesis by (simp add: CourseProgress_references_def references_course_def 2(2))
    qed
    have c: "references_item (Some (cip_itemId p)) ?s'" if "p \<in> set (CourseItemProgress ?s')" for p
    proof -
      from that have mem: "p \<in> set (CourseItemProgress s)" by (simp add: 2(2))
      then have "item_referenced (cip_itemId p) s" by (auto simp: item_referenced_def list_ex_iff)
      moreover from mem ok have "cip_itemId p \<in> set (map ci_id (CourseItems s))"
        by (auto simp: refs_ok_def list_all_iff references_item_def)
      ultimately show ?thesis using kept [of "cip_itemId p"] by (simp add: references_item_def 2(2))
    qed
    from a b c show ?thesis by (simp add: refs_ok_def list_all_iff)
  qed
qed

lemma upsertCourseProgress_refs:
  assumes ok: "refs_ok s"
  shows "refs_ok (snd (upsertCourseProgress input ctx e s))"
proof -
  let ?s' = "snd (upsertCourseProgress input ctx e s)"
  have tabs: "Courses ?s' = Courses s" "CourseItems ?s' = CourseItems s"
    "CourseItemProgress ?s' = CourseItemProgress s"
    using upsertCourseProgress_store [of input ctx e s] by auto
  have same: "CourseProgress_references p ?s' = CourseProgress_references p s" for p
    by (cases "cp_lastVisitedItemId p")
       (simp_all add: CourseProgress_references_def references_course_def references_item_def
          tabs)
  have new: "p \<in> set (CourseProgress s) \<or> CourseProgress_references p s"
    if "p \<in> set (CourseProgress ?s')" for p
    using upsertCourseProgress_store [of input ctx e s] that
    by (auto simp: list_all_iff split: if_splits)
  show ?thesis
    by (rule refs_ok_grow [OF ok]) (use tabs new same in auto)
qed

lemma updateCourseItemProgress_item:
  "snd (updateCourseItemProgress input ctx e s) \<noteq> s \<Longrightarrow> references_item (Some (ip_itemId input)) s"
  by (auto simp: updateCourseItemProgress_def Let_def found_item_references
        split: sum.splits option.splits)

lemma updateCourseItemProgress_refs:
  assumes ok: "refs_ok s"
  shows "refs_ok (snd (updateCourseItemProgress input ctx e s))"
proof (cases "snd (updateCourseItemProgress input ctx e s) = s")
  case True
  with ok show ?thesis by simp
next
  case False
  let ?s' = "snd (updateCourseItemProgress input ctx e s)"
  from updateCourseItemProgress_item [OF False]
  have item: "references_item (Some (ip_itemId input)) s" .
  have tabs: "Courses ?s' = Courses s" "CourseItems ?s' = CourseItems s"
    "CourseProgress ?s' = CourseProgress s"
    using updateCourseItemProgress_store [of input ctx e s] by auto
  have new: "p \<in> set (CourseItemProgress s) \<or> cip_itemId p = ip_itemId input"
    if "p \<in> set (CourseItemProgress ?s')" for p
    using updateCourseItemProgress_store [of input ctx e s] that
    by (auto simp: CourseItemProgress_values_def CourseItemProgress_set_def
          updateCourseItemProgress_baseValues_def split: if_splits)
  show ?thesis
  proof (rule refs_ok_grow [OF ok])
    show "p \<in> set (CourseItemProgress ?s') \<Longrightarrow>
            p \<in> set (CourseItemProgress s) \<or> references_item (Some (cip_itemId p)) ?s'" for p
      using new [of p] item tabs by (auto simp: references_item_def)
  qed (simp_all add: tabs)
qed

text \<open>Every action keeps the invariants, and so does every sequence of calls.\<close>

lemma wf_store_empty: "wf_store empty_store"
  by (simp add: wf_store_def keys_ok_empty refs_ok_empty)

lemma server_wf: "wf_store s \<Longrightarrow> wf_store (snd (server a ctx e s))"
  by (cases a)
     (simp_all add: wf_store_def
        createCourse_keys updateCourse_keys listMyCourses_keys getCourseWithItems_keys
        saveCourseItem_keys deleteCourseItem_keys upsertCourseProgress_keys
        updateCourseItemProgress_keys
        createCourse_refs updateCourse_refs listMyCourses_refs getCourseWithItems_refs
        saveCourseItem_refs deleteCourseItem_refs upsertCourseProgress_refs
        updateCourseItemProgress_refs)

lemma run_all_wf: "wf_store s \<Longrightarrow> wf_store (run_all calls s)"
proof (induction calls arbitrary: s)
  case Nil
  then show ?case by (simp add: run_all_def)
next
  case (Cons c calls)
  obtain a ctx e where c: "c = (a, ctx, e)" by (cases c)
  from Cons.prems have "wf_store (snd (server a ctx e s))" by (rule server_wf)
  from Cons.IH [OF this] show ?case by (simp add: run_all_def c)
qed

lemma reachable_wf: "wf_store (run_all calls empty_store)"
  by (rule run_all_wf) (rule wf_store_empty)

text \<open>In such a store the hypotheses of the claims about keys and references hold.\<close>

lemma distinct_key_filter:
  "distinct (map g rows) \<Longrightarrow> length (filter (\<lambda>r. g r = k) rows) \<le> 1"
proof (induction rows)
  case Nil
  then show ?case by simp
next
  case (Cons x xs)
  show ?case
  proof (cases "g x = k")
    case True
    with Cons.prems have "\<forall>r \<in> set xs. g r \<noteq> k" by (auto simp: image_iff)
    then have "filter (\<lambda>r. g r = k) xs = []" by (simp add: filter_empty_conv)
    with True show ?thesis by simp
  next
    case False
    with Cons show ?thesis by simp
  qed
qed

lemma wf_store_progress_rows:
  assumes "wf_store s"
  shows "length (progress_rows cid uid s) \<le> 1"
proof -
  from assms have d: "distinct (map (\<lambda>p. (cp_courseId p, cp_userId p)) (CourseProgress s))"
    by (simp add: wf_store_def keys_ok_def)
  have "progress_rows cid uid s =
          filter (\<lambda>p. (cp_courseId p, cp_userId p) = (cid, uid)) (CourseProgress s)"
    by (simp add: progress_rows_def)
  with distinct_key_filter [OF d, of "(cid, uid)"] show ?thesis by simp
qed

lemma wf_store_keys:
  assumes "wf_store s"
  shows "pk_ok (map c_id (Courses s))" and "pk_ok (map ci_id (CourseItems s))"
    and "pk_ok (map cp_id (CourseProgress s))"
  using assms by (simp_all add: wf_store_def keys_ok_def)

lemma wf_store_lastVisitedItemId:
  assumes "wf_store s"
  shows "list_all (\<lambda>p. references_item (cp_lastVisitedItemId p) s) (CourseProgress s)"
  using assms
  by (simp add: wf_store_def refs_ok_def CourseProgress_references_def list_all_iff)

end
